theory Spec2Isabelle
  imports Main "HOL-Library.Sublist" "HOL-Library.Word"
begin

section \<open>Strings, files and the line scanner\<close>

text \<open>
  Go strings are byte sequences; they are modelled as \<^typ>\<open>string\<close>, a list of 8-bit
  characters. Line numbers are Go \<^verbatim>\<open>int\<close>s and are modelled as \<^typ>\<open>int\<close>
  (a file has far fewer than \<open>2^63\<close> lines, so the arithmetic never wraps).

  The library functions \<^verbatim>\<open>strings.ToLower\<close> and \<^verbatim>\<open>strings.TrimSpace\<close> are modelled
  as they act on ASCII text: \<open>ToLower\<close> maps \<open>A\<close>..\<open>Z\<close> to \<open>a\<close>..\<open>z\<close> and \<open>TrimSpace\<close>
  strips tab, line feed, vertical tab, form feed, carriage return and space. Their
  treatment of multi-byte UTF-8 sequences (Unicode case mapping, Unicode white space) is
  outside the model.
\<close>

definition isSpace :: "char \<Rightarrow> bool" where
  "isSpace c = (c = CHR 0x09 \<or> c = CHR 0x0A \<or> c = CHR 0x0B \<or> c = CHR 0x0C \<or> c = CHR 0x0D \<or> c = CHR 0x20)"

definition TrimSpace :: "string \<Rightarrow> string" where
  "TrimSpace s = rev (dropWhile isSpace (rev (dropWhile isSpace s)))"

definition toLowerChar :: "char \<Rightarrow> char" where
  "toLowerChar c =
     (let n = (of_char c :: nat) in if 65 \<le> n \<and> n \<le> 90 then char_of (n + 32) else c)"

definition ToLower :: "string \<Rightarrow> string" where
  "ToLower s = map toLowerChar s"

fun HasPrefix :: "string \<Rightarrow> string \<Rightarrow> bool" where
  "HasPrefix s [] = True"
| "HasPrefix [] (p # ps) = False"
| "HasPrefix (c # cs) (p # ps) = (c = p \<and> HasPrefix cs ps)"

fun Contains :: "string \<Rightarrow> string \<Rightarrow> bool" where
  "Contains [] substr = (substr = [])"
| "Contains (c # cs) substr = (HasPrefix (c # cs) substr \<or> Contains cs substr)"

text \<open>
  \<^verbatim>\<open>strings.Split(s, "\n")\<close>: the pieces of \<open>s\<close> between the separators, \<open>n + 1\<close>
  pieces for \<open>n\<close> separators. The source only ever splits at the one-byte separator
  \<^verbatim>\<open>"\n"\<close>, so the separator is a character here.
\<close>

function Split :: "string \<Rightarrow> char \<Rightarrow> string list" where
  "Split s sep =
     (case dropWhile (\<lambda>c. c \<noteq> sep) s of
        [] \<Rightarrow> [s]
      | c # rest \<Rightarrow> takeWhile (\<lambda>c. c \<noteq> sep) s # Split rest sep)"
  by pat_completeness auto
termination
proof (relation "measure (\<lambda>(s, sep). length s)")
  show "wf (measure (\<lambda>(s, sep). length s))"
    by simp
next
  fix s :: string and sep c :: char and rest :: string
  assume "dropWhile (\<lambda>c. c \<noteq> sep) s = c # rest"
  then have "length (c # rest) \<le> length s"
    by (metis length_dropWhile_le)
  then show "((rest, sep), (s, sep)) \<in> measure (\<lambda>(s, sep). length s)"
    by simp
qed

declare Split.simps [simp del]

fun Join :: "string list \<Rightarrow> string \<Rightarrow> string" where
  "Join [] sep = []"
| "Join [x] sep = x"
| "Join (x # y # ys) sep = x @ sep @ Join (y # ys) sep"

abbreviation nl :: char where
  "nl \<equiv> CHR 0x0A"

text \<open>
  Errors. \<open>PathError\<close> is a failure of \<^verbatim>\<open>os.Open\<close>, \<^verbatim>\<open>os.ReadFile\<close> or
  \<^verbatim>\<open>os.WriteFile\<close> with the operating system's message, \<open>ErrTooLong\<close> is
  \<^verbatim>\<open>bufio.ErrTooLong\<close>, \<open>Errorf p e\<close> is \<^verbatim>\<open>fmt.Errorf(p + "%w", e)\<close>.
  \<open>Panic\<close> is not an error value of the program but a run-time panic (an index or
  slice bound out of range); it propagates through every caller.
\<close>

datatype error = PathError string | ErrTooLong | Errorf string error | Panic

fun Error :: "error \<Rightarrow> string" where
  "Error (PathError m) = m"
| "Error ErrTooLong = ''bufio.Scanner: token too long''"
| "Error (Errorf p e) = p @ Error e"
| "Error Panic = ''panic''"

text \<open>
  A file on disk: its path, its bytes, and whether opening it for reading or writing
  fails (\<open>Some m\<close>: it fails with message \<open>m\<close>). A failed write leaves the bytes as
  they were.
\<close>

record osfile =
  filename :: string
  content :: string
  openErr :: "string option"
  writeErr :: "string option"

definition WriteFile :: "osfile \<Rightarrow> string \<Rightarrow> error + osfile" where
  "WriteFile f data =
     (case writeErr f of Some m \<Rightarrow> Inl (PathError m) | None \<Rightarrow> Inr (f\<lparr>content := data\<rparr>))"

text \<open>
  \<^verbatim>\<open>bufio.Scanner\<close> with its default split function \<^verbatim>\<open>ScanLines\<close>. The scanner
  cuts the input at every line feed, does not deliver an empty piece after the last
  line feed, and strips one trailing carriage return from each piece (\<open>dropCR\<close>).
  A piece of \<open>MaxScanTokenSize\<close> bytes or more does not fit the scanner's buffer:
  \<^verbatim>\<open>Scan\<close> then returns false and \<^verbatim>\<open>scanner.Err()\<close> is \<open>ErrTooLong\<close>.
  \<open>scanLines c\<close> is the list of tokens that successive calls of \<^verbatim>\<open>Scan\<close> deliver
  until \<^verbatim>\<open>Scan\<close> returns false; \<open>scanErr c\<close> says whether \<^verbatim>\<open>scanner.Err()\<close> is
  non-nil once \<^verbatim>\<open>Scan\<close> has returned false.
\<close>

definition MaxScanTokenSize :: nat where
  "MaxScanTokenSize = 64 * 1024"

definition dropCR :: "string \<Rightarrow> string" where
  "dropCR l = (if l \<noteq> [] \<and> last l = CHR 0x0D then butlast l else l)"

definition rawLines :: "string \<Rightarrow> string list" where
  "rawLines c = (let ls = Split c nl in if last ls = [] then butlast ls else ls)"

definition fits :: "string \<Rightarrow> bool" where
  "fits l = (length l < MaxScanTokenSize)"

definition scanLines :: "string \<Rightarrow> string list" where
  "scanLines c = map dropCR (takeWhile fits (rawLines c))"

definition scanErr :: "string \<Rightarrow> bool" where
  "scanErr c = (\<not> list_all fits (rawLines c))"

section \<open>The header classifier\<close>

record HeaderInfo =
  HasHeader :: bool
  HasThirdPartyCopyright :: bool
  StartLine :: int
  EndLine :: int
  HasShebang :: bool

definition containsSPDXIdentifier :: "string \<Rightarrow> bool" where
  "containsSPDXIdentifier line = Contains (ToLower line) ''spdx-license-identifier''"

definition commentPrefixes :: "string list" where
  "commentPrefixes =
     [''//'', ''#'', ''/*'', ''*'', '';;'', ''--'', [CHR 0x22], ''REM'', ''C'', ''!'', ''%'']"

definition isCommentLine :: "string \<Rightarrow> bool" where
  "isCommentLine line =
     (let trimmed = TrimSpace line in
      if trimmed = [] then False
      else list_ex (\<lambda>prefix. HasPrefix trimmed prefix) commentPrefixes)"

text \<open>
  \<^verbatim>\<open>findHeaderStart\<close>: the backward walk from the line above the marker. \<open>spdxLine\<close> is
  1-based. The loop variable \<open>i\<close> runs from \<open>spdxLine - 2\<close> down to \<open>startLine\<close>.
\<close>

definition headerStartLine :: "string \<Rightarrow> bool" where
  "headerStartLine raw =
     (let line = ToLower (TrimSpace raw) in
      Contains line ''copyright'' \<or>
      Contains line ''licensed under'' \<or>
      Contains line ''developed by'' \<or>
      Contains line ''author'' \<or>
      isCommentLine raw)"

function findHeaderStartLoop :: "string list \<Rightarrow> int \<Rightarrow> int \<Rightarrow> int" where
  "findHeaderStartLoop lines startLine i =
     (if i \<ge> startLine then
        (if i < 0 \<or> i \<ge> int (length lines) then findHeaderStartLoop lines startLine (i - 1)
         else if headerStartLine (lines ! nat i) then findHeaderStartLoop lines startLine (i - 1)
         else i + 1)
      else startLine)"
  by pat_completeness auto
termination
  by (relation "measure (\<lambda>(lines, startLine, i). nat (i - startLine + 1))") auto

declare findHeaderStartLoop.simps [simp del]

definition findHeaderStart :: "osfile \<Rightarrow> int \<Rightarrow> int" where
  "findHeaderStart f spdxLine =
     (case openErr f of Some m \<Rightarrow> 0
      | None \<Rightarrow>
          let lines = take (nat spdxLine) (scanLines (content f));
              startLine = (if length lines > 0 \<and> HasPrefix (TrimSpace (lines ! 0)) ''#!''
                           then 1 else 0)
          in findHeaderStartLoop lines startLine (spdxLine - 2))"

text \<open>
  \<^verbatim>\<open>findHeaderEnd\<close>: \<open>skipToLine\<close> is the first loop, which reads lines while
  \<open>lineNum \<le> spdxLine\<close>; \<open>extendEnd\<close> is the second loop, which moves \<open>endLine\<close>
  forward over header lines and stops at the first other line.
\<close>

fun skipToLine :: "string list \<Rightarrow> int \<Rightarrow> int \<Rightarrow> string list \<times> int" where
  "skipToLine [] spdxLine lineNum = ([], lineNum)"
| "skipToLine (t # ts) spdxLine lineNum =
     (if lineNum \<le> spdxLine then skipToLine ts spdxLine (lineNum + 1) else (t # ts, lineNum))"

definition headerEndLine :: "string \<Rightarrow> bool" where
  "headerEndLine raw =
     (let lowerLine = ToLower (TrimSpace raw) in
      Contains lowerLine ''see license'' \<or>
      Contains lowerLine ''developed by'' \<or>
      Contains lowerLine ''oregon state university'' \<or>
      isCommentLine raw)"

fun extendEnd :: "string list \<Rightarrow> int \<Rightarrow> int \<Rightarrow> int" where
  "extendEnd [] lineNum endLine = endLine"
| "extendEnd (t # ts) lineNum endLine =
     (if TrimSpace t = [] \<and> isCommentLine t then extendEnd ts (lineNum + 1) (lineNum + 1 - 1)
      else if headerEndLine t then extendEnd ts (lineNum + 1) (lineNum + 1 - 1)
      else endLine)"

definition findHeaderEnd :: "osfile \<Rightarrow> int \<Rightarrow> int" where
  "findHeaderEnd f spdxLine =
     (case openErr f of Some m \<Rightarrow> spdxLine
      | None \<Rightarrow>
          (case skipToLine (scanLines (content f)) spdxLine 0 of
             (rest, lineNum) \<Rightarrow> extendEnd rest lineNum spdxLine))"

text \<open>
  \<^verbatim>\<open>findThirdPartyCopyrightBlock\<close>: the first line is looked at apart (a shebang line is
  skipped); \<open>thirdPartyLoop\<close> is the loop over the other lines.
\<close>

definition licenseLine :: "string \<Rightarrow> bool" where
  "licenseLine raw =
     (let line = TrimSpace raw; lineLower = ToLower line in
      Contains lineLower ''permission'' \<or>
      Contains lineLower ''license'' \<or>
      Contains lineLower ''software'' \<or>
      Contains lineLower ''rights'' \<or>
      Contains lineLower ''distribute'' \<or>
      Contains lineLower ''modify'' \<or>
      Contains lineLower ''use'' \<or>
      Contains lineLower ''without warranty'' \<or>
      Contains lineLower ''liability'' \<or>
      Contains lineLower ''damages'' \<or>
      isCommentLine raw \<or>
      line = [])"

fun thirdPartyLoop :: "string list \<Rightarrow> int \<Rightarrow> int \<Rightarrow> int \<Rightarrow> int \<times> int" where
  "thirdPartyLoop [] lineNum startLine endLine = (startLine, endLine)"
| "thirdPartyLoop (t # ts) lineNum startLine endLine =
     (let startLine' =
            (if startLine = -1 \<and> Contains (ToLower (TrimSpace t)) ''copyright''
             then lineNum + 1 - 1 else startLine)
      in if startLine' \<noteq> -1 then
           (if licenseLine t then thirdPartyLoop ts (lineNum + 1) startLine' (lineNum + 1 - 1)
            else (startLine', endLine))
         else thirdPartyLoop ts (lineNum + 1) startLine' endLine)"

definition findThirdPartyCopyrightBlock :: "osfile \<Rightarrow> int \<times> int" where
  "findThirdPartyCopyrightBlock f =
     (case openErr f of Some m \<Rightarrow> (0, 0)
      | None \<Rightarrow>
          (case (case scanLines (content f) of
                   [] \<Rightarrow> thirdPartyLoop [] 0 (-1) (-1)
                 | t # ts \<Rightarrow>
                     thirdPartyLoop ts 1
                       (if HasPrefix (TrimSpace t) ''#!'' then -1
                        else if Contains (ToLower (TrimSpace t)) ''copyright'' then 0
                        else -1)
                       (-1))
           of (startLine, endLine) \<Rightarrow>
             if startLine \<noteq> -1 \<and> endLine = -1 then (startLine, startLine)
             else (startLine, endLine)))"

text \<open>
  \<^verbatim>\<open>DetectExistingHeader\<close>, in the order of the source: the first line
  (\<open>scanFirst\<close>), the next two lines (\<open>scanNextTwo\<close>), the third-party test on the first
  three lines (\<open>checkThirdParty\<close>), the scan of the remaining lines up to
  \<open>maxLinesToCheck\<close> (\<open>scanRest\<close>), and the computation of the end of the span.
  \<open>scanRest\<close> also returns whether it ended because \<^verbatim>\<open>Scan\<close> returned false: only
  then can \<^verbatim>\<open>scanner.Err()\<close> be non-nil. Every caller discards the
  \<open>HeaderInfo\<close> when the error is non-nil, so the result is a sum.
\<close>

definition maxLinesToCheck :: int where
  "maxLinesToCheck = 20"

definition info0 :: HeaderInfo where
  "info0 = \<lparr>HasHeader = False, HasThirdPartyCopyright = False,
            StartLine = -1, EndLine = -1, HasShebang = False\<rparr>"

definition scanFirst :: "string list \<Rightarrow> HeaderInfo \<Rightarrow> HeaderInfo" where
  "scanFirst toks info =
     (case toks of [] \<Rightarrow> info
      | t # ts \<Rightarrow>
          let line = TrimSpace t;
              info = (if HasPrefix line ''#!'' then info\<lparr>HasShebang := True\<rparr> else info)
          in if containsSPDXIdentifier line
             then info\<lparr>HasHeader := True, StartLine := 1 - 1\<rparr> else info)"

fun scanNextTwo :: "osfile \<Rightarrow> string list \<Rightarrow> int \<Rightarrow> HeaderInfo \<Rightarrow> HeaderInfo" where
  "scanNextTwo f [] lineNum info = info"
| "scanNextTwo f (t # ts) lineNum info =
     scanNextTwo f ts (lineNum + 1)
       (if containsSPDXIdentifier (TrimSpace t)
        then info\<lparr>HasHeader := True,
                  StartLine := (if StartLine info = -1 then findHeaderStart f (lineNum + 1)
                                else StartLine info),
                  EndLine := lineNum + 1 - 1\<rparr>
        else info)"

definition checkThirdParty :: "string list \<Rightarrow> HeaderInfo \<Rightarrow> HeaderInfo" where
  "checkThirdParty firstThreeLines info =
     (if \<not> HasHeader info \<and>
         list_ex (\<lambda>line. Contains (ToLower line) ''copyright'') firstThreeLines
      then info\<lparr>HasThirdPartyCopyright := True\<rparr> else info)"

fun scanRest :: "osfile \<Rightarrow> string list \<Rightarrow> int \<Rightarrow> HeaderInfo \<Rightarrow> HeaderInfo \<times> bool" where
  "scanRest f [] lineNum info = (info, True)"
| "scanRest f (t # ts) lineNum info =
     (if \<not> lineNum < maxLinesToCheck then (info, False)
      else if containsSPDXIdentifier (TrimSpace t)
      then (info\<lparr>HasHeader := True,
                 StartLine := (if StartLine info = -1 then findHeaderStart f (lineNum + 1)
                               else StartLine info),
                 EndLine := lineNum + 1 - 1\<rparr>, False)
      else scanRest f ts (lineNum + 1) info)"

definition finishSpan :: "osfile \<Rightarrow> HeaderInfo \<Rightarrow> HeaderInfo" where
  "finishSpan f info =
     (if HasHeader info then info\<lparr>EndLine := findHeaderEnd f (EndLine info)\<rparr>
      else if HasThirdPartyCopyright info
      then (case findThirdPartyCopyrightBlock f of
              (startLine, endLine) \<Rightarrow> info\<lparr>StartLine := startLine, EndLine := endLine\<rparr>)
      else info)"

definition DetectExistingHeader :: "osfile \<Rightarrow> error + HeaderInfo" where
  "DetectExistingHeader f =
     (case openErr f of Some m \<Rightarrow> Inl (PathError m)
      | None \<Rightarrow>
          let toks = scanLines (content f);
              info = scanFirst toks info0;
              info = scanNextTwo f (take 2 (drop 1 toks)) (int (min 1 (length toks))) info;
              info = checkThirdParty (map TrimSpace (take 3 toks)) info
          in (case scanRest f (drop 3 toks) (int (min 3 (length toks))) info of
                (info, scanEnded) \<Rightarrow>
                  if scanEnded \<and> scanErr (content f) then Inl ErrTooLong
                  else Inr (finishSpan f info)))"

section \<open>The ownership validator and header removal\<close>

record Config =
  FullName :: string
  DefaultRole :: string
  DeptOrLab :: string
  Organization :: string

text \<open>
  Go's slice expressions \<^verbatim>\<open>xs[lo:hi]\<close> and \<^verbatim>\<open>xs[lo:]\<close> and the index expression
  \<^verbatim>\<open>xs[0]\<close> panic when a bound is out of range.
\<close>

definition slice :: "'a list \<Rightarrow> int \<Rightarrow> int \<Rightarrow> error + 'a list" where
  "slice xs lo hi =
     (if 0 \<le> lo \<and> lo \<le> hi \<and> hi \<le> int (length xs)
      then Inr (take (nat hi - nat lo) (drop (nat lo) xs)) else Inl Panic)"

definition sliceFrom :: "'a list \<Rightarrow> int \<Rightarrow> error + 'a list" where
  "sliceFrom xs lo =
     (if 0 \<le> lo \<and> lo \<le> int (length xs) then Inr (drop (nat lo) xs) else Inl Panic)"

definition firstLine :: "'a list \<Rightarrow> error + 'a" where
  "firstLine xs = (case xs of [] \<Rightarrow> Inl Panic | x # _ \<Rightarrow> Inr x)"

definition CanRemoveHeader :: "osfile \<Rightarrow> Config \<Rightarrow> error + bool" where
  "CanRemoveHeader f config =
     (case DetectExistingHeader f of
        Inl err \<Rightarrow> Inl err
      | Inr headerInfo \<Rightarrow>
          if \<not> HasHeader headerInfo then Inr False
          else
            (case openErr f of
               Some m \<Rightarrow> Inl (PathError m)
             | None \<Rightarrow>
                 let lines = Split (content f) nl;
                     start = StartLine headerInfo;
                     endIdx = EndLine headerInfo
                 in (case (if start < int (length lines) \<and> endIdx < int (length lines)
                           then slice lines start (endIdx + 1) else Inr [])
                     of Inl err \<Rightarrow> Inl err
                      | Inr headerLines \<Rightarrow>
                          let headerText = Join headerLines [nl];
                              headerLower = ToLower headerText;
                              hasSPDX = Contains headerLower ''spdx-license-identifier''
                          in if \<not> hasSPDX then Inr False
                             else Inr (Contains headerText (FullName config) \<or>
                                       Contains headerText (Organization config)))))"

function skipBlank :: "string list \<Rightarrow> int \<Rightarrow> error + int" where
  "skipBlank lines skipIndex =
     (if skipIndex < int (length lines) then
        (if skipIndex < 0 then Inl Panic
         else if TrimSpace (lines ! nat skipIndex) = [] then skipBlank lines (skipIndex + 1)
         else Inr skipIndex)
      else Inr skipIndex)"
  by pat_completeness auto
termination
  by (relation "measure (\<lambda>(lines, skipIndex). nat (int (length lines) - skipIndex))") auto

declare skipBlank.simps [simp del]

definition remainingAfter :: "string list \<Rightarrow> int \<Rightarrow> error + string list" where
  "remainingAfter lines endLine =
     (case skipBlank lines (endLine + 1) of
        Inl err \<Rightarrow> Inl err
      | Inr skipIndex \<Rightarrow>
          if skipIndex < int (length lines) then sliceFrom lines skipIndex else Inr [])"

definition RemoveHeader :: "osfile \<Rightarrow> error + osfile" where
  "RemoveHeader f =
     (case DetectExistingHeader f of
        Inl err \<Rightarrow> Inl err
      | Inr headerInfo \<Rightarrow>
          if \<not> HasHeader headerInfo then Inr f
          else
            (case openErr f of
               Some m \<Rightarrow> Inl (PathError m)
             | None \<Rightarrow>
                 let lines = Split (content f) nl
                 in (case (if HasShebang headerInfo then
                             (case firstLine lines of
                                Inl err \<Rightarrow> Inl err
                              | Inr shebang \<Rightarrow>
                                  (case remainingAfter lines (EndLine headerInfo) of
                                     Inl err \<Rightarrow> Inl err
                                   | Inr rest \<Rightarrow> Inr ([shebang] @ rest)))
                           else remainingAfter lines (EndLine headerInfo))
                     of Inl err \<Rightarrow> Inl err
                      | Inr newContent \<Rightarrow> WriteFile f (Join newContent [nl]))))"

section \<open>File types and header formatting\<close>

record CommentStyle =
  Line :: string
  BlockStart :: string
  BlockEnd :: string

definition noStyle :: CommentStyle where
  "noStyle = \<lparr>Line = [], BlockStart = [], BlockEnd = []\<rparr>"

text \<open>
  The two package-level maps, as association lists in the order of the source. The keys
  of a Go map literal are distinct, so \<open>map_of\<close> is the lookup.
\<close>

definition commentStyles :: "(string \<times> CommentStyle) list" where
  "commentStyles =
     [
      (''.go'', \<lparr>Line = ''//'', BlockStart = ''/*'', BlockEnd = ''*/''\<rparr>),
      (''.py'', \<lparr>Line = ''#'', BlockStart = '''', BlockEnd = ''''\<rparr>),
      (''.sh'', \<lparr>Line = ''#'', BlockStart = '''', BlockEnd = ''''\<rparr>),
      (''.rb'', \<lparr>Line = ''#'', BlockStart = '''', BlockEnd = ''''\<rparr>),
      (''.js'', \<lparr>Line = ''//'', BlockStart = ''/*'', BlockEnd = ''*/''\<rparr>),
      (''.mjs'', \<lparr>Line = ''//'', BlockStart = ''/*'', BlockEnd = ''*/''\<rparr>),
      (''.cjs'', \<lparr>Line = ''//'', BlockStart = ''/*'', BlockEnd = ''*/''\<rparr>),
      (''.ts'', \<lparr>Line = ''//'', BlockStart = ''/*'', BlockEnd = ''*/''\<rparr>),
      (''.tsx'', \<lparr>Line = ''//'', BlockStart = ''/*'', BlockEnd = ''*/''\<rparr>),
      (''.jsx'', \<lparr>Line = ''//'', BlockStart = ''/*'', BlockEnd = ''*/''\<rparr>),
      (''.html'', \<lparr>Line = ''<!--'', BlockStart = ''<!--'', BlockEnd = ''-->''\<rparr>),
      (''.htm'', \<lparr>Line = ''<!--'', BlockStart = ''<!--'', BlockEnd = ''-->''\<rparr>),
      (''.css'', \<lparr>Line = ''/*'', BlockStart = ''/*'', BlockEnd = ''*/''\<rparr>),
      (''.scss'', \<lparr>Line = ''//'', BlockStart = ''/*'', BlockEnd = ''*/''\<rparr>),
      (''.sass'', \<lparr>Line = ''//'', BlockStart = ''/*'', BlockEnd = ''*/''\<rparr>),
      (''.less'', \<lparr>Line = ''//'', BlockStart = ''/*'', BlockEnd = ''*/''\<rparr>),
      (''.java'', \<lparr>Line = ''//'', BlockStart = ''/*'', BlockEnd = ''*/''\<rparr>),
      (''.c'', \<lparr>Line = ''//'', BlockStart = ''/*'', BlockEnd = ''*/''\<rparr>),
      (''.cpp'', \<lparr>Line = ''//'', BlockStart = ''/*'', BlockEnd = ''*/''\<rparr>),
      (''.cc'', \<lparr>Line = ''//'', BlockStart = ''/*'', BlockEnd = ''*/''\<rparr>),
      (''.cxx'', \<lparr>Line = ''//'', BlockStart = ''/*'', BlockEnd = ''*/''\<rparr>),
      (''.h'', \<lparr>Line = ''//'', BlockStart = ''/*'', BlockEnd = ''*/''\<rparr>),
      (''.hpp'', \<lparr>Line = ''//'', BlockStart = ''/*'', BlockEnd = ''*/''\<rparr>),
      (''.rs'', \<lparr>Line = ''//'', BlockStart = ''/*'', BlockEnd = ''*/''\<rparr>),
      (''.swift'', \<lparr>Line = ''//'', BlockStart = ''/*'', BlockEnd = ''*/''\<rparr>),
      (''.kt'', \<lparr>Line = ''//'', BlockStart = ''/*'', BlockEnd = ''*/''\<rparr>),
      (''.scala'', \<lparr>Line = ''//'', BlockStart = ''/*'', BlockEnd = ''*/''\<rparr>),
      (''.cs'', \<lparr>Line = ''//'', BlockStart = ''/*'', BlockEnd = ''*/''\<rparr>),
      (''.yaml'', \<lparr>Line = ''#'', BlockStart = '''', BlockEnd = ''''\<rparr>),
      (''.yml'', \<lparr>Line = ''#'', BlockStart = '''', BlockEnd = ''''\<rparr>),
      (''.toml'', \<lparr>Line = ''#'', BlockStart = '''', BlockEnd = ''''\<rparr>),
      (''.ini'', \<lparr>Line = ''#'', BlockStart = '''', BlockEnd = ''''\<rparr>),
      (''.cfg'', \<lparr>Line = ''#'', BlockStart = '''', BlockEnd = ''''\<rparr>),
      (''.conf'', \<lparr>Line = ''#'', BlockStart = '''', BlockEnd = ''''\<rparr>),
      (''.sql'', \<lparr>Line = ''--'', BlockStart = ''/*'', BlockEnd = ''*/''\<rparr>),
      (''.lua'', \<lparr>Line = ''--'', BlockStart = ''--[['', BlockEnd = ''--]]''\<rparr>),
      (''.r'', \<lparr>Line = ''#'', BlockStart = '''', BlockEnd = ''''\<rparr>),
      (''.R'', \<lparr>Line = ''#'', BlockStart = '''', BlockEnd = ''''\<rparr>),
      (''.rmd'', \<lparr>Line = ''<!--'', BlockStart = ''<!--'', BlockEnd = ''-->''\<rparr>),
      (''.Rmd'', \<lparr>Line = ''<!--'', BlockStart = ''<!--'', BlockEnd = ''-->''\<rparr>),
      (''.m'', \<lparr>Line = ''//'', BlockStart = ''/*'', BlockEnd = ''*/''\<rparr>),
      (''.mm'', \<lparr>Line = ''//'', BlockStart = ''/*'', BlockEnd = ''*/''\<rparr>),
      (''.vim'', \<lparr>Line = [CHR 0x22], BlockStart = '''', BlockEnd = ''''\<rparr>),
      (''.vimrc'', \<lparr>Line = [CHR 0x22], BlockStart = '''', BlockEnd = ''''\<rparr>),
      (''.el'', \<lparr>Line = '';;'', BlockStart = '''', BlockEnd = ''''\<rparr>),
      (''.lisp'', \<lparr>Line = '';;'', BlockStart = '''', BlockEnd = ''''\<rparr>),
      (''.lsp'', \<lparr>Line = '';;'', BlockStart = '''', BlockEnd = ''''\<rparr>),
      (''.clj'', \<lparr>Line = '';;'', BlockStart = '''', BlockEnd = ''''\<rparr>),
      (''.cljs'', \<lparr>Line = '';;'', BlockStart = '''', BlockEnd = ''''\<rparr>),
      (''.hs'', \<lparr>Line = ''--'', BlockStart = ''{-'', BlockEnd = ''-}''\<rparr>),
      (''.lhs'', \<lparr>Line = ''--'', BlockStart = ''{-'', BlockEnd = ''-}''\<rparr>),
      (''.ml'', \<lparr>Line = ''(*'', BlockStart = '''', BlockEnd = ''*)''\<rparr>),
      (''.mli'', \<lparr>Line = ''(*'', BlockStart = '''', BlockEnd = ''*)''\<rparr>),
      (''.pas'', \<lparr>Line = ''//'', BlockStart = ''{'', BlockEnd = ''}''\<rparr>),
      (''.pl'', \<lparr>Line = ''#'', BlockStart = '''', BlockEnd = ''''\<rparr>),
      (''.pm'', \<lparr>Line = ''#'', BlockStart = '''', BlockEnd = ''''\<rparr>),
      (''.php'', \<lparr>Line = ''//'', BlockStart = ''/*'', BlockEnd = ''*/''\<rparr>),
      (''.dart'', \<lparr>Line = ''//'', BlockStart = ''/*'', BlockEnd = ''*/''\<rparr>),
      (''.f'', \<lparr>Line = ''C'', BlockStart = ''C'', BlockEnd = ''C''\<rparr>),
      (''.f90'', \<lparr>Line = ''!'', BlockStart = ''!'', BlockEnd = ''!''\<rparr>),
      (''.f95'', \<lparr>Line = ''!'', BlockStart = ''!'', BlockEnd = ''!''\<rparr>),
      (''.jl'', \<lparr>Line = ''#'', BlockStart = ''#='', BlockEnd = ''=#''\<rparr>),
      (''.zig'', \<lparr>Line = ''//'', BlockStart = '''', BlockEnd = ''''\<rparr>),
      (''.nim'', \<lparr>Line = ''#'', BlockStart = ''#['', BlockEnd = '']#''\<rparr>),
      (''.cr'', \<lparr>Line = ''#'', BlockStart = '''', BlockEnd = ''''\<rparr>),
      (''.d'', \<lparr>Line = ''//'', BlockStart = ''/*'', BlockEnd = ''*/''\<rparr>),
      (''.ex'', \<lparr>Line = ''#'', BlockStart = '''', BlockEnd = ''''\<rparr>),
      (''.exs'', \<lparr>Line = ''#'', BlockStart = '''', BlockEnd = ''''\<rparr>),
      (''.erl'', \<lparr>Line = ''%'', BlockStart = '''', BlockEnd = ''''\<rparr>),
      (''.hrl'', \<lparr>Line = ''%'', BlockStart = '''', BlockEnd = ''''\<rparr>),
      (''.fs'', \<lparr>Line = ''//'', BlockStart = ''(*'', BlockEnd = ''*)''\<rparr>),
      (''.fsx'', \<lparr>Line = ''//'', BlockStart = ''(*'', BlockEnd = ''*)''\<rparr>),
      (''.fsi'', \<lparr>Line = ''//'', BlockStart = ''(*'', BlockEnd = ''*)''\<rparr>),
      (''.v'', \<lparr>Line = ''//'', BlockStart = ''/*'', BlockEnd = ''*/''\<rparr>),
      (''.vv'', \<lparr>Line = ''//'', BlockStart = ''/*'', BlockEnd = ''*/''\<rparr>),
      (''.bat'', \<lparr>Line = ''REM'', BlockStart = '''', BlockEnd = ''''\<rparr>),
      (''.cmd'', \<lparr>Line = ''REM'', BlockStart = '''', BlockEnd = ''''\<rparr>),
      (''.ps1'', \<lparr>Line = ''#'', BlockStart = ''<#'', BlockEnd = ''#>''\<rparr>),
      (''.psm1'', \<lparr>Line = ''#'', BlockStart = ''<#'', BlockEnd = ''#>''\<rparr>),
      ('''', \<lparr>Line = ''#'', BlockStart = '''', BlockEnd = ''''\<rparr>)
     ]"

definition excludedExtensions :: "string list" where
  "excludedExtensions =
     [
      ''.md'', ''.txt'', ''.json'', ''.xml'', ''.csv'', ''.tsv'', ''.log'', ''.out'',
      ''.pdf'', ''.doc'', ''.docx'', ''.xls'', ''.xlsx'', ''.ppt'', ''.pptx'', ''.zip'',
      ''.tar'', ''.gz'', ''.bz2'', ''.xz'', ''.7z'', ''.rar'', ''.png'', ''.jpg'',
      ''.jpeg'', ''.gif'', ''.bmp'', ''.tiff'', ''.svg'', ''.ico'', ''.mp3'', ''.mp4'',
      ''.avi'', ''.mov'', ''.mkv'', ''.wav'', ''.flac'', ''.exe'', ''.dll'', ''.so'',
      ''.dylib'', ''.a'', ''.lib'', ''.obj'', ''.o'', ''.class'', ''.jar'', ''.war'',
      ''.ear'', ''.pyc'', ''.pyo'', ''.pyd'', ''.whl'', ''.egg'', ''.deb'', ''.rpm'',
      ''.msi'', ''.dmg'', ''.iso'', ''.img''
     ]"

text \<open>
  \<^verbatim>\<open>filepath.Ext\<close>: the suffix of the path from the last dot of its last element
  (the part after the last \<open>/\<close>), empty when that element has no dot.
\<close>

definition Ext :: "string \<Rightarrow> string" where
  "Ext path =
     (let r = takeWhile (\<lambda>c. c \<noteq> CHR ''/'') (rev path)
      in if CHR ''.'' \<in> set r then rev (takeWhile (\<lambda>c. c \<noteq> CHR ''.'') r @ ''.'') else [])"

text \<open>
  \<^verbatim>\<open>isTextFile\<close> reads up to 512 bytes. \<^verbatim>\<open>unicode.IsPrint\<close> and
  \<^verbatim>\<open>unicode.IsSpace\<close> are applied to single bytes, that is to Latin-1 code points.
  The test \<^verbatim>\<open>float64(nonPrintable)/float64(n) > 0.30\<close> is written as the comparison of
  integers \<open>10 * nonPrintable > 3 * n\<close>: for \<open>n \<le> 512\<close> the two agree, since a
  quotient equal to \<open>3/10\<close> rounds to the same double as the constant and any other
  quotient differs from it by more than the rounding error.
\<close>

definition IsPrint :: "char \<Rightarrow> bool" where
  "IsPrint c =
     (let n = (of_char c :: nat) in (32 \<le> n \<and> n \<le> 126) \<or> (161 \<le> n \<and> n \<noteq> 173))"

definition IsSpace :: "char \<Rightarrow> bool" where
  "IsSpace c =
     (let n = (of_char c :: nat) in (9 \<le> n \<and> n \<le> 13) \<or> n = 32 \<or> n = 133 \<or> n = 160)"

definition isTextFile :: "osfile \<Rightarrow> bool" where
  "isTextFile f =
     (case openErr f of
        Some m \<Rightarrow> False
      | None \<Rightarrow>
          let buffer = take 512 (content f);
              n = length buffer
          in if n = 0 then False
             else
               let nullBytes = length (filter (\<lambda>b. b = CHR 0x00) buffer);
                   nonPrintable =
                     length (filter (\<lambda>b. b \<noteq> CHR 0x00 \<and> \<not> IsPrint b \<and> \<not> IsSpace b) buffer)
               in if nullBytes > 0 \<or> 10 * nonPrintable > 3 * n then False else True)"

definition GetCommentStyle :: "osfile \<Rightarrow> CommentStyle \<times> bool" where
  "GetCommentStyle f =
     (let ext = ToLower (Ext (filename f))
      in if ext \<in> set excludedExtensions then (noStyle, False)
         else
           (case map_of commentStyles ext of
              None \<Rightarrow>
                if ext = [] then
                  (if isTextFile f
                   then ((case map_of commentStyles [] of None \<Rightarrow> noStyle | Some s \<Rightarrow> s), True)
                   else (noStyle, False))
                else (noStyle, False)
            | Some style \<Rightarrow> (style, True)))"

definition ShouldProcessFile :: "osfile \<Rightarrow> bool" where
  "ShouldProcessFile f =
     (let ext = ToLower (Ext (filename f))
      in if ext \<in> set excludedExtensions then False
         else if map_of commentStyles ext = None \<and> ext \<noteq> [] then False
         else if ext = [] then isTextFile f
         else True)"

definition FormatHeader :: "string \<Rightarrow> CommentStyle \<Rightarrow> string" where
  "FormatHeader header style =
     (let lines = Split header nl
      in if Line style = ''/*'' \<and> BlockStart style = ''/*'' \<and> BlockEnd style = ''*/''
         then Join ([''/*''] @
                    map (\<lambda>line. if TrimSpace line = [] then '' *'' else '' * '' @ line) lines @
                    ['' */'']) [nl]
         else Join (map (\<lambda>line. if TrimSpace line = [] then Line style
                                  else Line style @ '' '' @ line) lines) [nl])"

text \<open>
  The header templates. \<^verbatim>\<open>time.Now().Year()\<close> is the parameter \<open>year\<close>;
  \<open>Itoa\<close> is the decimal rendering of \<^verbatim>\<open>%d\<close>.
\<close>

function natToString :: "nat \<Rightarrow> string" where
  "natToString n =
     (if n < 10 then [char_of (48 + n)]
      else natToString (n div 10) @ [char_of (48 + n mod 10)])"
  by pat_completeness auto
termination
  by (relation "measure (\<lambda>n. n)") auto

declare natToString.simps [simp del]

definition Itoa :: "int \<Rightarrow> string" where
  "Itoa i = (if i < 0 then ''-'' @ natToString (nat (- i)) else natToString (nat i))"

definition generateStudentHeader :: "Config \<Rightarrow> int \<Rightarrow> string" where
  "generateStudentHeader config year =
     ''Copyright (c) '' @ Itoa year @ '' '' @ FullName config @ [nl] @
     [nl] @
     ''SPDX-License-Identifier: MIT'' @ [nl] @
     ''See LICENSE file for full license text.''"

definition generateFacultyStaffHeader :: "Config \<Rightarrow> int \<Rightarrow> string" where
  "generateFacultyStaffHeader config year =
     ''Copyright '' @ Itoa year @ '' Oregon State University'' @ [nl] @
     [nl] @
     ''Licensed under the Apache License, Version 2.0.'' @ [nl] @
     ''See the LICENSE file for details.'' @ [nl] @
     ''SPDX-License-Identifier: Apache-2.0'' @ [nl] @
     [nl] @
     ''Developed by: '' @ FullName config @ [nl] @
     ''              '' @ DeptOrLab config"

definition GenerateHeader :: "Config \<Rightarrow> int \<Rightarrow> string" where
  "GenerateHeader config year =
     (if DefaultRole config = ''Student'' then generateStudentHeader config year
      else if DefaultRole config = ''Faculty'' \<or> DefaultRole config = ''Staff''
      then generateFacultyStaffHeader config year
      else generateStudentHeader config year)"

record HeaderTemplate =
  LicenseType :: string
  CopyrightOwner :: string

definition GetHeaderTemplate :: "Config \<Rightarrow> HeaderTemplate" where
  "GetHeaderTemplate config =
     (if DefaultRole config = ''Student''
      then \<lparr>LicenseType = ''MIT'', CopyrightOwner = FullName config\<rparr>
      else if DefaultRole config = ''Faculty'' \<or> DefaultRole config = ''Staff''
      then \<lparr>LicenseType = ''Apache-2.0'', CopyrightOwner = ''Oregon State University''\<rparr>
      else \<lparr>LicenseType = ''MIT'', CopyrightOwner = FullName config\<rparr>)"

definition GetLicenseType :: "Config \<Rightarrow> string" where
  "GetLicenseType config = LicenseType (GetHeaderTemplate config)"

section \<open>The file mutator and the per-file driver\<close>

record ProcessResult =
  Action :: string
  Reason :: string
  Modified :: bool

definition restAfter :: "string list \<Rightarrow> int \<Rightarrow> error + string list" where
  "restAfter lines endLine =
     (if endLine + 1 < int (length lines) then sliceFrom lines (endLine + 1) else Inr [])"

definition newLines :: "string list \<Rightarrow> string \<Rightarrow> HeaderInfo \<Rightarrow> error + string list" where
  "newLines lines newHeader headerInfo =
     (if HasHeader headerInfo \<or> HasThirdPartyCopyright headerInfo then
        (if HasShebang headerInfo then
           (case firstLine lines of
              Inl err \<Rightarrow> Inl err
            | Inr shebang \<Rightarrow>
                (case restAfter lines (EndLine headerInfo) of
                   Inl err \<Rightarrow> Inl err
                 | Inr rest \<Rightarrow> Inr ([shebang] @ [[]] @ Split newHeader nl @ [[]] @ rest)))
         else
           (case restAfter lines (EndLine headerInfo) of
              Inl err \<Rightarrow> Inl err
            | Inr rest \<Rightarrow> Inr (Split newHeader nl @ [[]] @ rest)))
      else
        (if HasShebang headerInfo then
           (case firstLine lines of
              Inl err \<Rightarrow> Inl err
            | Inr shebang \<Rightarrow>
                (case (if length lines > 1 then sliceFrom lines 1 else Inr []) of
                   Inl err \<Rightarrow> Inl err
                 | Inr rest \<Rightarrow> Inr ([shebang] @ [[]] @ Split newHeader nl @ [[]] @ rest)))
         else Inr (Split newHeader nl @ [[]] @ lines)))"

definition modifyFile :: "osfile \<Rightarrow> string \<Rightarrow> HeaderInfo \<Rightarrow> error + osfile" where
  "modifyFile f newHeader headerInfo =
     (case openErr f of
        Some m \<Rightarrow> Inl (Errorf ''failed to read file: '' (PathError m))
      | None \<Rightarrow>
          (case newLines (Split (content f) nl) newHeader headerInfo of
             Inl err \<Rightarrow> Inl err
           | Inr newContent \<Rightarrow>
               (case WriteFile f (Join newContent [nl]) of
                  Inl err \<Rightarrow> Inl (Errorf ''failed to write file: '' err)
                | Inr f' \<Rightarrow> Inr f')))"

definition processRemoveMode :: "osfile \<Rightarrow> Config \<Rightarrow> error + (ProcessResult \<times> osfile)" where
  "processRemoveMode f config =
     (if \<not> ShouldProcessFile f
      then Inr (\<lparr>Action = ''SKIP'', Reason = ''Excluded file type'', Modified = False\<rparr>, f)
      else
        (case CanRemoveHeader f config of
           Inl Panic \<Rightarrow> Inl Panic
         | Inl err \<Rightarrow>
             Inr (\<lparr>Action = ''SKIP'', Reason = ''Error checking header: '' @ Error err,
                   Modified = False\<rparr>, f)
         | Inr canRemove \<Rightarrow>
             if \<not> canRemove then
               (case DetectExistingHeader f of
                  Inl Panic \<Rightarrow> Inl Panic
                | Inl err \<Rightarrow>
                    Inr (\<lparr>Action = ''SKIP'', Reason = ''Error reading file: '' @ Error err,
                          Modified = False\<rparr>, f)
                | Inr headerInfo \<Rightarrow>
                    if \<not> HasHeader headerInfo
                    then Inr (\<lparr>Action = ''SKIP'', Reason = ''No header found'',
                               Modified = False\<rparr>, f)
                    else Inr (\<lparr>Action = ''SKIP'',
                               Reason = ''Header ownership mismatch (safety check)'',
                               Modified = False\<rparr>, f))
             else
               (case RemoveHeader f of
                  Inl Panic \<Rightarrow> Inl Panic
                | Inl err \<Rightarrow>
                    Inr (\<lparr>Action = ''SKIP'', Reason = ''Error removing header: '' @ Error err,
                          Modified = False\<rparr>, f)
                | Inr f' \<Rightarrow>
                    Inr (\<lparr>Action = ''REMOVE'', Reason = ''Removed header (ownership match)'',
                          Modified = True\<rparr>, f'))))"

definition ProcessFile ::
  "osfile \<Rightarrow> Config \<Rightarrow> bool \<Rightarrow> bool \<Rightarrow> bool \<Rightarrow> int \<Rightarrow> error + (ProcessResult \<times> osfile)" where
  "ProcessFile f config forceReplace removeMode verbose year =
     (if removeMode then processRemoveMode f config
      else if \<not> ShouldProcessFile f
      then Inr (\<lparr>Action = ''SKIP'', Reason = ''Excluded file type'', Modified = False\<rparr>, f)
      else
        (case GetCommentStyle f of
           (commentStyle, ok) \<Rightarrow>
             if \<not> ok
             then Inr (\<lparr>Action = ''SKIP'', Reason = ''No comment style available'',
                        Modified = False\<rparr>, f)
             else
               (case DetectExistingHeader f of
                  Inl Panic \<Rightarrow> Inl Panic
                | Inl err \<Rightarrow>
                    Inr (\<lparr>Action = ''SKIP'', Reason = ''Error reading file: '' @ Error err,
                          Modified = False\<rparr>, f)
                | Inr headerInfo \<Rightarrow>
                    if HasHeader headerInfo \<and> \<not> forceReplace
                    then Inr (\<lparr>Action = ''SKIP'', Reason = ''Header already exists'',
                               Modified = False\<rparr>, f)
                    else if HasThirdPartyCopyright headerInfo \<and> \<not> forceReplace
                    then Inr (\<lparr>Action = ''SKIP'',
                               Reason = ''Third-party copyright found (use --force to overwrite)'',
                               Modified = False\<rparr>, f)
                    else
                      let headerText = GenerateHeader config year;
                          formattedHeader = FormatHeader headerText commentStyle;
                          action = (if HasHeader headerInfo then ''REPLACE''
                                    else if HasThirdPartyCopyright headerInfo then ''REPLACE''
                                    else ''ADD'')
                      in (case modifyFile f formattedHeader headerInfo of
                            Inl Panic \<Rightarrow> Inl Panic
                          | Inl err \<Rightarrow>
                              Inr (\<lparr>Action = ''SKIP'',
                                    Reason = ''Error modifying file: '' @ Error err,
                                    Modified = False\<rparr>, f)
                          | Inr f' \<Rightarrow>
                              Inr (\<lparr>Action = action,
                                    Reason =
                                      (if HasThirdPartyCopyright headerInfo
                                       then ''Replaced third-party copyright with '' @
                                            GetLicenseType config @ '' header''
                                       else ''Added '' @ GetLicenseType config @ '' header''),
                                    Modified = True\<rparr>, f')))))"

text \<open>
  The counters of a run are \<^verbatim>\<open>int64\<close>s updated with \<^verbatim>\<open>atomic.AddInt64\<close>, which
  wraps around. \<open>countResult\<close> is the update that \<^verbatim>\<open>processDirectoryRecursive\<close> makes
  for one file; \<open>countResults\<close> applies it to the results of a run in the order in which
  the atomic updates take effect.
\<close>

record ProcessingStats =
  FilesProcessed :: "64 word"
  FilesModified :: "64 word"
  FilesSkipped :: "64 word"
  FilesErrored :: "64 word"

definition countResult :: "ProcessingStats \<Rightarrow> ProcessResult \<Rightarrow> ProcessingStats" where
  "countResult stats result =
     (let stats = stats\<lparr>FilesProcessed := FilesProcessed stats + 1\<rparr>
      in if Modified result then stats\<lparr>FilesModified := FilesModified stats + 1\<rparr>
         else if Action result = ''SKIP'' then stats\<lparr>FilesSkipped := FilesSkipped stats + 1\<rparr>
         else stats)"

definition newStats :: ProcessingStats where
  "newStats = \<lparr>FilesProcessed = 0, FilesModified = 0, FilesSkipped = 0, FilesErrored = 0\<rparr>"

fun countResults :: "ProcessingStats \<Rightarrow> ProcessResult list \<Rightarrow> ProcessingStats" where
  "countResults stats [] = stats"
| "countResults stats (r # rs) = countResults (countResult stats r) rs"

section \<open>Auxiliary notions used in the proofs\<close>

text \<open>
  \<open>scanned f\<close> is the verdict of \<open>DetectExistingHeader\<close> before the end of the span is
  computed, with the flag of \<open>scanRest\<close>; \<open>spdxTok\<close> is the test the classifier applies to
  a scanned line; \<open>spanOK n info\<close> is the invariant of the scan after \<open>n\<close> lines.
\<close>

definition scanned :: "osfile \<Rightarrow> HeaderInfo \<times> bool" where
  "scanned f =
     (let toks = scanLines (content f) in
      scanRest f (drop 3 toks) (int (min 3 (length toks)))
        (checkThirdParty (map TrimSpace (take 3 toks))
          (scanNextTwo f (take 2 (drop 1 toks)) (int (min 1 (length toks)))
            (scanFirst toks info0))))"

definition spdxTok :: "string \<Rightarrow> bool" where
  "spdxTok t = containsSPDXIdentifier (TrimSpace t)"

definition spanOK :: "int \<Rightarrow> HeaderInfo \<Rightarrow> bool" where
  "spanOK n info \<longleftrightarrow>
     - 1 \<le> EndLine info \<and> EndLine info < n \<and>
     (if HasHeader info then 0 \<le> StartLine info \<and> StartLine info \<le> EndLine info + 1
      else StartLine info = - 1 \<and> EndLine info = - 1)"

text \<open>
  \<open>spanText f info\<close> is the text of the span: the lines \<open>StartLine info\<close> to
  \<open>EndLine info\<close> of the file, joined by line feeds (empty when the span is empty).
\<close>

definition spanText :: "osfile \<Rightarrow> HeaderInfo \<Rightarrow> string" where
  "spanText f info =
     Join (map (\<lambda>i. Split (content f) nl ! nat i) [StartLine info..EndLine info]) [nl]"

section \<open>Facts about the string functions\<close>

lemma Split_nonempty: "Split s sep \<noteq> []"
  by (subst Split.simps) (simp split: list.splits)

lemma Split_Nil: "Split [] sep = [[]]"
  by (subst Split.simps) simp

lemma Split_Cons_sep: "Split (sep # cs) sep = [] # Split cs sep"
  by (subst Split.simps) simp

lemma Split_Cons_other:
  assumes "c \<noteq> sep"
  shows "Split (c # cs) sep = (c # hd (Split cs sep)) # tl (Split cs sep)"
proof (cases "dropWhile (\<lambda>c. c \<noteq> sep) cs")
  case Nil
  then have d: "dropWhile (\<lambda>c. c \<noteq> sep) (c # cs) = []"
    using assms by simp
  have "Split cs sep = [cs]"
    by (subst Split.simps) (simp only: Nil list.case)
  moreover have "Split (c # cs) sep = [c # cs]"
    by (subst Split.simps) (simp only: d list.case)
  ultimately show ?thesis by simp
next
  case (Cons d rest)
  then have d: "dropWhile (\<lambda>c. c \<noteq> sep) (c # cs) = d # rest"
    using assms by simp
  have t: "takeWhile (\<lambda>c. c \<noteq> sep) (c # cs) = c # takeWhile (\<lambda>c. c \<noteq> sep) cs"
    using assms by simp
  have "Split cs sep = takeWhile (\<lambda>c. c \<noteq> sep) cs # Split rest sep"
    by (subst Split.simps) (simp only: Cons list.case)
  moreover have "Split (c # cs) sep = (c # takeWhile (\<lambda>c. c \<noteq> sep) cs) # Split rest sep"
    by (subst Split.simps) (simp only: d t list.case)
  ultimately show ?thesis by simp
qed

lemma Split_no_sep: "sep \<notin> set x \<Longrightarrow> Split x sep = [x]"
  by (induction x) (auto simp: Split_Nil Split_Cons_other)

lemma Split_append_sep: "sep \<notin> set x \<Longrightarrow> Split (x @ sep # rest) sep = x # Split rest sep"
proof (induction x)
  case Nil
  then show ?case by (simp add: Split_Cons_sep)
next
  case (Cons c x)
  then have "c \<noteq> sep" and IH: "Split (x @ sep # rest) sep = x # Split rest sep"
    by auto
  have "Split (c # (x @ sep # rest)) sep = (c # x) # Split rest sep"
    by (subst Split_Cons_other [OF \<open>c \<noteq> sep\<close>]) (simp only: IH list.sel)
  then show ?case by simp
qed

lemma Split_pieces: "l \<in> set (Split s sep) \<Longrightarrow> sep \<notin> set l"
proof (induction s arbitrary: l)
  case Nil
  then show ?case by (simp add: Split_Nil)
next
  case (Cons c cs)
  show ?case
  proof (cases "c = sep")
    case True
    with Cons show ?thesis by (auto simp: Split_Cons_sep)
  next
    case False
    obtain h t where ht: "Split cs sep = h # t"
      using Split_nonempty by (cases "Split cs sep") auto
    with Cons False show ?thesis
      by (auto simp: Split_Cons_other)
  qed
qed

lemma Split_Join:
  "xs \<noteq> [] \<Longrightarrow> \<forall>x \<in> set xs. sep \<notin> set x \<Longrightarrow> Split (Join xs [sep]) sep = xs"
proof (induction xs "[sep]" rule: Join.induct)
  case 1
  then show ?case by simp
next
  case (2 x)
  then show ?case by (simp add: Split_no_sep)
next
  case (3 x y ys)
  then show ?case by (simp add: Split_append_sep)
qed

lemma Split_Join_Split:
  "Split (Join (pre @ Split h sep @ post) [sep]) sep = pre @ Split h sep @ post"
  if "\<forall>x \<in> set pre. sep \<notin> set x" "\<forall>x \<in> set post. sep \<notin> set x"
  using that by (intro Split_Join) (auto simp: Split_nonempty dest: Split_pieces)

lemma HasPrefix_prefix: "HasPrefix s p \<longleftrightarrow> prefix p s"
  by (induction s p rule: HasPrefix.induct) auto

lemma Contains_sublist: "Contains s p \<longleftrightarrow> sublist p s"
  by (induction s) (auto simp: HasPrefix_prefix sublist_Cons_right)

lemma sublist_dropWhile:
  assumes "p \<noteq> []" "\<not> P (hd p)"
  shows "sublist p (dropWhile P x) \<longleftrightarrow> sublist p x"
proof (induction x)
  case Nil
  then show ?case by simp
next
  case (Cons c cs)
  show ?case
  proof (cases "P c")
    case True
    with assms have "\<not> prefix p (c # cs)"
      by (cases p) auto
    with True Cons show ?thesis
      by (simp add: sublist_Cons_right)
  next
    case False
    then show ?thesis by simp
  qed
qed

lemma sublist_TrimSpace:
  assumes "p \<noteq> []" "\<not> isSpace (hd p)" "\<not> isSpace (last p)"
  shows "sublist p (TrimSpace x) \<longleftrightarrow> sublist p x"
proof -
  have r: "rev p \<noteq> []" "\<not> isSpace (hd (rev p))"
    using assms by (simp_all add: hd_rev)
  have "sublist p (TrimSpace x) \<longleftrightarrow> sublist (rev p) (dropWhile isSpace (rev (dropWhile isSpace x)))"
    unfolding TrimSpace_def by (metis rev_rev_ident sublist_rev)
  also have "\<dots> \<longleftrightarrow> sublist (rev p) (rev (dropWhile isSpace x))"
    using r by (rule sublist_dropWhile)
  also have "\<dots> \<longleftrightarrow> sublist p (dropWhile isSpace x)"
    by (simp add: sublist_rev)
  also have "\<dots> \<longleftrightarrow> sublist p x"
    using assms(1,2) by (rule sublist_dropWhile)
  finally show ?thesis .
qed

lemma toLowerChar_cases:
  "toLowerChar c = c \<or> (65 \<le> (of_char c :: nat) \<and> (of_char c :: nat) \<le> 90 \<and> (of_char (toLowerChar c) :: nat) = of_char c + 32)"
proof (cases "65 \<le> (of_char c :: nat) \<and> (of_char c :: nat) \<le> 90")
  case True
  then have "(of_char c + 32 :: nat) mod 256 = of_char c + 32"
    by simp
  then have "(of_char (char_of (of_char c + 32 :: nat)) :: nat) = of_char c + 32"
    by (simp only: of_char_of)
  with True show ?thesis
    by (simp add: toLowerChar_def Let_def)
next
  case False
  then show ?thesis
    by (simp add: toLowerChar_def Let_def)
qed

lemma of_char_spaces:
  "isSpace c \<longleftrightarrow> (of_char c :: nat) \<in> {9, 10, 11, 12, 13, 32}"
  by (simp add: isSpace_def of_char_eq_iff [where ?'a = nat, symmetric])

lemma isSpace_toLowerChar: "isSpace (toLowerChar c) \<longleftrightarrow> isSpace c"
  using toLowerChar_cases [of c] by (auto simp: of_char_spaces)

lemma ToLower_dropWhile: "ToLower (dropWhile isSpace s) = dropWhile isSpace (ToLower s)"
  by (induction s) (auto simp: ToLower_def isSpace_toLowerChar)

lemma ToLower_rev: "ToLower (rev s) = rev (ToLower s)"
  by (simp add: ToLower_def rev_map)

lemma ToLower_TrimSpace: "ToLower (TrimSpace s) = TrimSpace (ToLower s)"
  by (simp add: TrimSpace_def ToLower_dropWhile ToLower_rev)

lemma Contains_ToLower_TrimSpace:
  assumes "p \<noteq> []" "\<not> isSpace (hd p)" "\<not> isSpace (last p)"
  shows "Contains (ToLower (TrimSpace s)) p \<longleftrightarrow> Contains (ToLower s) p"
  using assms by (simp add: Contains_sublist ToLower_TrimSpace sublist_TrimSpace)

lemma spdx_pattern:
  "''spdx-license-identifier'' \<noteq> []"
  "\<not> isSpace (hd ''spdx-license-identifier'')"
  "\<not> isSpace (last ''spdx-license-identifier'')"
  "last ''spdx-license-identifier'' \<noteq> CHR 0x0D"
  by (simp_all add: isSpace_def)

lemma copyright_pattern:
  "''copyright'' \<noteq> []"
  "\<not> isSpace (hd ''copyright'')"
  "\<not> isSpace (last ''copyright'')"
  "last ''copyright'' \<noteq> CHR 0x0D"
  by (simp_all add: isSpace_def)

lemma containsSPDX_TrimSpace: "containsSPDXIdentifier (TrimSpace s) = containsSPDXIdentifier s"
  unfolding containsSPDXIdentifier_def
  by (rule Contains_ToLower_TrimSpace [OF spdx_pattern(1,2,3)])

lemma copyright_TrimSpace:
  "Contains (ToLower (TrimSpace s)) ''copyright'' = Contains (ToLower s) ''copyright''"
  by (rule Contains_ToLower_TrimSpace [OF copyright_pattern(1,2,3)])

lemma sublist_butlast_last:
  assumes "p \<noteq> []" "last p \<noteq> c"
  shows "sublist p (x @ [c]) \<longleftrightarrow> sublist p x"
proof -
  have "\<not> prefix (rev p) (c # rev x)"
    using assms by (cases "rev p") (auto simp: last_rev dest: arg_cong [where f = hd])
  then have "sublist (rev p) (rev (x @ [c])) \<longleftrightarrow> sublist (rev p) (rev x)"
    by (simp add: sublist_Cons_right)
  then show ?thesis
    by (simp only: sublist_rev)
qed

lemma toLowerChar_CR: "toLowerChar c = CHR 0x0D \<longleftrightarrow> c = CHR 0x0D"
proof (cases "toLowerChar c = c")
  case True
  then show ?thesis by simp
next
  case False
  with toLowerChar_cases [of c]
  have b: "65 \<le> (of_char c :: nat)" "(of_char (toLowerChar c) :: nat) = of_char c + 32"
    by auto
  have "toLowerChar c \<noteq> CHR 0x0D"
  proof
    assume "toLowerChar c = CHR 0x0D"
    then have "(of_char (toLowerChar c) :: nat) = 13" by simp
    with b show False by simp
  qed
  moreover have "c \<noteq> CHR 0x0D"
  proof
    assume "c = CHR 0x0D"
    then have "(of_char c :: nat) = 13" by simp
    with b show False by simp
  qed
  ultimately show ?thesis by simp
qed

lemma Contains_ToLower_dropCR:
  assumes "p \<noteq> []" "last p \<noteq> CHR 0x0D"
  shows "Contains (ToLower (dropCR l)) p \<longleftrightarrow> Contains (ToLower l) p"
proof (cases "l \<noteq> [] \<and> last l = CHR 0x0D")
  case True
  then obtain x where l: "l = x @ [CHR 0x0D]"
    by (metis append_butlast_last_id)
  have "ToLower l = ToLower x @ [CHR 0x0D]"
    by (simp add: l ToLower_def toLowerChar_def)
  with assms show ?thesis
    by (simp add: l dropCR_def Contains_sublist sublist_butlast_last)
next
  case False
  then show ?thesis by (auto simp: dropCR_def)
qed

lemma containsSPDX_dropCR: "containsSPDXIdentifier (dropCR s) = containsSPDXIdentifier s"
  unfolding containsSPDXIdentifier_def
  by (rule Contains_ToLower_dropCR [OF spdx_pattern(1,4)])

lemma copyright_dropCR:
  "Contains (ToLower (dropCR s)) ''copyright'' = Contains (ToLower s) ''copyright''"
  by (rule Contains_ToLower_dropCR [OF copyright_pattern(1,4)])

subsection \<open>The third-party block scan\<close>

lemma thirdPartyLoop_started:
  "startLine \<noteq> -1 \<Longrightarrow>
   thirdPartyLoop ts lineNum startLine endLine =
     (startLine,
      if takeWhile licenseLine ts = [] then endLine
      else lineNum + int (length (takeWhile licenseLine ts)) - 1)"
proof (induction ts arbitrary: lineNum endLine)
  case Nil
  then show ?case by simp
next
  case (Cons t ts)
  show ?case
  proof (cases "licenseLine t")
    case True
    with Cons show ?thesis by (simp add: Let_def)
  next
    case False
    with Cons.prems show ?thesis by (simp add: Let_def)
  qed
qed

lemma thirdPartyLoop_search:
  "thirdPartyLoop ts lineNum (-1) endLine = (s, e) \<Longrightarrow> s \<noteq> -1 \<Longrightarrow> 0 \<le> lineNum \<Longrightarrow>
   \<exists>k < length ts. s = lineNum + int k \<and> Contains (ToLower (TrimSpace (ts ! k))) ''copyright'' \<and>
     (if licenseLine (ts ! k)
      then e = s + int (length (takeWhile licenseLine (drop (Suc k) ts)))
      else e = endLine)"
proof (induction ts arbitrary: lineNum)
  case Nil
  then show ?case by simp
next
  case (Cons t ts)
  show ?case
  proof (cases "Contains (ToLower (TrimSpace t)) ''copyright''")
    case cr: True
    show ?thesis
    proof (cases "licenseLine t")
      case True
      have "thirdPartyLoop (t # ts) lineNum (-1) endLine = thirdPartyLoop ts (lineNum + 1) lineNum lineNum"
        using cr True Cons.prems(3) by (simp add: Let_def)
      also have "\<dots> = (lineNum, if takeWhile licenseLine ts = [] then lineNum
                      else lineNum + 1 + int (length (takeWhile licenseLine ts)) - 1)"
        using Cons.prems(3) by (intro thirdPartyLoop_started) simp
      finally have "s = lineNum" "e = lineNum + int (length (takeWhile licenseLine ts))"
        using Cons.prems(1) by (auto split: if_splits)
      with cr True show ?thesis
        by (intro exI [of _ 0]) simp
    next
      case False
      have "thirdPartyLoop (t # ts) lineNum (-1) endLine = (lineNum, endLine)"
        using cr False Cons.prems(3) by (simp add: Let_def)
      with Cons.prems(1) have "s = lineNum" "e = endLine" by auto
      with cr False show ?thesis
        by (intro exI [of _ 0]) simp
    qed
  next
    case False
    then have "thirdPartyLoop (t # ts) lineNum (-1) endLine = thirdPartyLoop ts (lineNum + 1) (-1) endLine"
      by (simp add: Let_def)
    with Cons.prems have "thirdPartyLoop ts (lineNum + 1) (-1) endLine = (s, e)"
      by simp
    from Cons.IH [OF this] Cons.prems(2,3)
    obtain k where k: "k < length ts" "s = lineNum + 1 + int k"
      "Contains (ToLower (TrimSpace (ts ! k))) ''copyright''"
      "if licenseLine (ts ! k)
       then e = s + int (length (takeWhile licenseLine (drop (Suc k) ts)))
       else e = endLine"
      by auto
    then show ?thesis
      by (intro exI [of _ "Suc k"]) auto
  qed
qed

lemma findThirdPartyCopyrightBlock_span:
  assumes "openErr f = None"
    and "findThirdPartyCopyrightBlock f = (s, e)"
    and "s \<noteq> -1"
  shows "0 \<le> s \<and> nat s < length (scanLines (content f)) \<and>
         Contains (ToLower (TrimSpace (scanLines (content f) ! nat s))) ''copyright'' \<and>
         e = (if s = 0 \<or> licenseLine (scanLines (content f) ! nat s)
              then s + int (length (takeWhile licenseLine (drop (nat s + 1) (scanLines (content f)))))
              else s)"
proof (cases "scanLines (content f)")
  case Nil
  with assms show ?thesis
    by (simp add: findThirdPartyCopyrightBlock_def)
next
  case (Cons t ts)
  show ?thesis
  proof (cases "\<not> HasPrefix (TrimSpace t) ''#!'' \<and> Contains (ToLower (TrimSpace t)) ''copyright''")
    case True
    have "thirdPartyLoop ts 1 0 (-1) =
            (0, if takeWhile licenseLine ts = [] then -1
                else 1 + int (length (takeWhile licenseLine ts)) - 1)"
      by (intro thirdPartyLoop_started) simp
    with assms(1,2) True Cons
    have "s = 0" "e = int (length (takeWhile licenseLine ts))"
      by (auto simp: findThirdPartyCopyrightBlock_def split: if_splits)
    with True Cons show ?thesis by simp
  next
    case False
    obtain s' e' where l: "thirdPartyLoop ts 1 (-1) (-1) = (s', e')"
      by (cases "thirdPartyLoop ts 1 (-1) (-1)") auto
    with assms False Cons have s': "s' = s" "s' \<noteq> -1" and e: "e = (if e' = -1 then s else e')"
      by (auto simp: findThirdPartyCopyrightBlock_def split: if_splits)
    from thirdPartyLoop_search [OF l s'(2)]
    obtain k where k: "k < length ts" "s' = 1 + int k"
      "Contains (ToLower (TrimSpace (ts ! k))) ''copyright''"
      "if licenseLine (ts ! k)
       then e' = s' + int (length (takeWhile licenseLine (drop (Suc k) ts)))
       else e' = -1"
      by auto
    have n: "nat s = Suc k" using k(2) s'(1) by simp
    show ?thesis
    proof (cases "licenseLine (ts ! k)")
      case True
      with k(4) s' have "e' = s + int (length (takeWhile licenseLine (drop (Suc k) ts)))"
        by simp
      moreover from this k(2) s'(1) have "e' \<noteq> -1" by simp
      ultimately show ?thesis
        using k Cons n s' e True by simp
    next
      case False
      with k(4) have "e' = -1" by simp
      then show ?thesis
        using k Cons n s' e False by simp
    qed
  qed
qed

subsection \<open>The phases of the classifier\<close>

lemma findHeaderStartLoop_bounds:
  "startLine \<le> findHeaderStartLoop lines startLine i \<and>
   findHeaderStartLoop lines startLine i \<le> max startLine (i + 1)"
proof (induction lines startLine i rule: findHeaderStartLoop.induct)
  case (1 lines startLine i)
  note eq = findHeaderStartLoop.simps [of lines startLine i]
  show ?case
  proof (cases "i \<ge> startLine")
    case False
    then show ?thesis by (simp add: eq)
  next
    case True
    show ?thesis
    proof (cases "i < 0 \<or> i \<ge> int (length lines)")
      case out: True
      then have "findHeaderStartLoop lines startLine i = findHeaderStartLoop lines startLine (i - 1)"
        using True by (simp add: eq)
      with 1(1) [OF True out] show ?thesis
        using True by (auto simp: max_def split: if_splits)
    next
      case inr: False
      show ?thesis
      proof (cases "headerStartLine (lines ! nat i)")
        case h: True
        then have "findHeaderStartLoop lines startLine i = findHeaderStartLoop lines startLine (i - 1)"
          using True inr by (simp add: eq)
        with 1(2) [OF True inr h] show ?thesis
          using True by (auto simp: max_def split: if_splits)
      next
        case h: False
        then have "findHeaderStartLoop lines startLine i = i + 1"
          using True inr by (simp add: eq)
        with True show ?thesis
          by simp
      qed
    qed
  qed
qed

lemma findHeaderStart_bounds:
  assumes "2 \<le> spdxLine"
  shows "0 \<le> findHeaderStart f spdxLine \<and> findHeaderStart f spdxLine \<le> spdxLine - 1"
proof (cases "openErr f")
  case (Some m)
  with assms show ?thesis by (simp add: findHeaderStart_def)
next
  case None
  define lines where "lines = take (nat spdxLine) (scanLines (content f))"
  define s :: int where "s = (if length lines > 0 \<and> HasPrefix (TrimSpace (lines ! 0)) ''#!'' then 1 else 0)"
  have r: "findHeaderStart f spdxLine = findHeaderStartLoop lines s (spdxLine - 2)"
    by (simp only: findHeaderStart_def None lines_def s_def Let_def option.case)
  have "0 \<le> s" "s \<le> 1" by (simp_all add: s_def)
  with findHeaderStartLoop_bounds [of s lines "spdxLine - 2"] assms show ?thesis
    unfolding r by auto
qed

lemma scanFirst_info0:
  "scanFirst toks info0 =
     \<lparr>HasHeader = (toks \<noteq> [] \<and> containsSPDXIdentifier (TrimSpace (hd toks))),
      HasThirdPartyCopyright = False,
      StartLine = (if toks \<noteq> [] \<and> containsSPDXIdentifier (TrimSpace (hd toks)) then 0 else - 1),
      EndLine = - 1,
      HasShebang = (toks \<noteq> [] \<and> HasPrefix (TrimSpace (hd toks)) ''#!'')\<rparr>"
  by (cases toks) (simp_all add: scanFirst_def info0_def Let_def)

lemma scanNextTwo_flags:
  "HasShebang (scanNextTwo f ts n info) = HasShebang info \<and>
   HasThirdPartyCopyright (scanNextTwo f ts n info) = HasThirdPartyCopyright info \<and>
   (HasHeader (scanNextTwo f ts n info) \<longleftrightarrow>
      HasHeader info \<or> list_ex (\<lambda>t. containsSPDXIdentifier (TrimSpace t)) ts)"
  by (induction ts arbitrary: n info) auto

lemma spanOK_mono: "spanOK n info \<Longrightarrow> n \<le> m \<Longrightarrow> spanOK m info"
  by (simp add: spanOK_def)

lemma spanOK_mark:
  assumes "spanOK n info" "1 \<le> n"
  shows "spanOK (n + 1)
           (info\<lparr>HasHeader := True,
                 StartLine := (if StartLine info = -1 then findHeaderStart f (n + 1)
                               else StartLine info),
                 EndLine := n + 1 - 1\<rparr>)"
proof -
  have "0 \<le> findHeaderStart f (n + 1) \<and> findHeaderStart f (n + 1) \<le> n"
    using findHeaderStart_bounds [of "n + 1" f] assms(2) by simp
  with assms show ?thesis
    by (auto simp: spanOK_def split: if_splits)
qed

lemma scanNextTwo_span:
  "spanOK n info \<Longrightarrow> 1 \<le> n \<Longrightarrow> spanOK (n + int (length ts)) (scanNextTwo f ts n info)"
proof (induction ts arbitrary: n info)
  case Nil
  then show ?case by simp
next
  case (Cons t ts)
  have n: "n + int (length (t # ts)) = (n + 1) + int (length ts)"
    by simp
  show ?case
  proof (cases "containsSPDXIdentifier (TrimSpace t)")
    case True
    have "spanOK (n + 1 + int (length ts))
            (scanNextTwo f ts (n + 1)
              (info\<lparr>HasHeader := True,
                 StartLine := (if StartLine info = -1 then findHeaderStart f (n + 1)
                               else StartLine info),
                 EndLine := n + 1 - 1\<rparr>))"
      using Cons.prems by (intro Cons.IH spanOK_mark) simp_all
    with True show ?thesis
      unfolding n by simp
  next
    case False
    have "spanOK (n + 1 + int (length ts)) (scanNextTwo f ts (n + 1) info)"
      using Cons.prems by (intro Cons.IH spanOK_mono [of n info "n + 1"]) simp_all
    with False show ?thesis
      unfolding n by simp
  qed
qed

lemma checkThirdParty_flags:
  "HasShebang (checkThirdParty ls info) = HasShebang info \<and>
   HasHeader (checkThirdParty ls info) = HasHeader info \<and>
   StartLine (checkThirdParty ls info) = StartLine info \<and>
   EndLine (checkThirdParty ls info) = EndLine info \<and>
   (HasThirdPartyCopyright (checkThirdParty ls info) \<longleftrightarrow>
      HasThirdPartyCopyright info \<or>
      (\<not> HasHeader info \<and> list_ex (\<lambda>line. Contains (ToLower line) ''copyright'') ls))"
  by (simp add: checkThirdParty_def)

lemma checkThirdParty_span: "spanOK n (checkThirdParty ls info) = spanOK n info"
  by (simp add: checkThirdParty_def spanOK_def)

lemma scanRest_flags:
  "HasShebang (fst (scanRest f ts n info)) = HasShebang info \<and>
   HasThirdPartyCopyright (fst (scanRest f ts n info)) = HasThirdPartyCopyright info \<and>
   (HasHeader (fst (scanRest f ts n info)) \<longleftrightarrow>
      HasHeader info \<or>
      list_ex (\<lambda>t. containsSPDXIdentifier (TrimSpace t)) (take (nat (maxLinesToCheck - n)) ts))"
proof (induction ts arbitrary: n)
  case Nil
  then show ?case by simp
next
  case (Cons t ts)
  show ?case
  proof (cases "n < maxLinesToCheck")
    case False
    then show ?thesis by simp
  next
    case True
    then have k: "nat (maxLinesToCheck - n) = Suc (nat (maxLinesToCheck - (n + 1)))"
      by simp
    show ?thesis
    proof (cases "containsSPDXIdentifier (TrimSpace t)")
      case s: True
      with True show ?thesis by (simp add: k)
    next
      case s: False
      with True Cons [of "n + 1"] show ?thesis by (simp add: k)
    qed
  qed
qed

lemma scanRest_span:
  "spanOK n info \<Longrightarrow> 1 \<le> n \<Longrightarrow> spanOK (n + int (length ts)) (fst (scanRest f ts n info))"
proof (induction ts arbitrary: n)
  case Nil
  then show ?case by simp
next
  case (Cons t ts)
  have n: "n + int (length (t # ts)) = (n + 1) + int (length ts)"
    by simp
  show ?case
  proof (cases "n < maxLinesToCheck")
    case False
    with Cons.prems show ?thesis
      by (auto intro: spanOK_mono)
  next
    case True
    show ?thesis
    proof (cases "containsSPDXIdentifier (TrimSpace t)")
      case s: True
      have "spanOK (n + 1)
              (info\<lparr>HasHeader := True,
                 StartLine := (if StartLine info = -1 then findHeaderStart f (n + 1)
                               else StartLine info),
                 EndLine := n + 1 - 1\<rparr>)"
        using Cons.prems by (rule spanOK_mark)
      then have "spanOK (n + 1 + int (length ts))
              (info\<lparr>HasHeader := True,
                 StartLine := (if StartLine info = -1 then findHeaderStart f (n + 1)
                               else StartLine info),
                 EndLine := n + 1 - 1\<rparr>)"
        by (rule spanOK_mono) simp
      with True s show ?thesis
        unfolding n by simp
    next
      case s: False
      have "spanOK (n + 1 + int (length ts)) (fst (scanRest f ts (n + 1) info))"
        using Cons.prems by (intro Cons.IH spanOK_mono [of n info "n + 1"]) simp_all
      with True s show ?thesis
        unfolding n by simp
    qed
  qed
qed

lemma scanRest_ended:
  "\<not> snd (scanRest f ts n info) \<Longrightarrow>
     HasHeader (fst (scanRest f ts n info)) \<or> maxLinesToCheck - n < int (length ts)"
proof (induction ts arbitrary: n)
  case Nil
  then show ?case by simp
next
  case (Cons t ts)
  show ?case
  proof (cases "n < maxLinesToCheck \<and> \<not> containsSPDXIdentifier (TrimSpace t)")
    case True
    with Cons.prems have "\<not> snd (scanRest f ts (n + 1) info)"
      by simp
    from Cons.IH [OF this] True show ?thesis
      by auto
  next
    case False
    then show ?thesis
      by auto
  qed
qed


lemma Detect_scanned:
  "DetectExistingHeader f =
     (case openErr f of
        Some m \<Rightarrow> Inl (PathError m)
      | None \<Rightarrow>
          if snd (scanned f) \<and> scanErr (content f) then Inl ErrTooLong
          else Inr (finishSpan f (fst (scanned f))))"
  by (simp add: DetectExistingHeader_def scanned_def Let_def split: prod.splits option.splits)

lemma skipToLine_drop:
  "n \<le> e + 1 \<Longrightarrow> e + 1 - n \<le> int (length ts) \<Longrightarrow>
   skipToLine ts e n = (drop (nat (e + 1 - n)) ts, e + 1)"
proof (induction ts arbitrary: n)
  case Nil
  then show ?case by simp
next
  case (Cons t ts)
  show ?case
  proof (cases "n \<le> e")
    case True
    then have "nat (e + 1 - n) = Suc (nat (e + 1 - (n + 1)))"
      by simp
    with True Cons.IH [of "n + 1"] Cons.prems show ?thesis
      by simp
  next
    case False
    with Cons.prems show ?thesis by simp
  qed
qed

lemma extendEnd_bounds:
  "extendEnd ts n e = e \<or> (n \<le> extendEnd ts n e \<and> extendEnd ts n e < n + int (length ts))"
proof (induction ts arbitrary: n e)
  case Nil
  then show ?case by simp
next
  case (Cons t ts)
  from Cons [of "n + 1" n] show ?case
    by auto
qed

lemma findHeaderEnd_bounds:
  assumes "- 1 \<le> e" "e < int (length (scanLines (content f)))"
  shows "e \<le> findHeaderEnd f e \<and> findHeaderEnd f e < int (length (scanLines (content f)))"
proof (cases "openErr f")
  case (Some m)
  with assms show ?thesis by (simp add: findHeaderEnd_def)
next
  case None
  let ?toks = "scanLines (content f)"
  have sk: "skipToLine ?toks e 0 = (drop (nat (e + 1)) ?toks, e + 1)"
    using skipToLine_drop [of 0 e ?toks] assms by simp
  have r: "findHeaderEnd f e = extendEnd (drop (nat (e + 1)) ?toks) (e + 1) e"
    by (simp add: findHeaderEnd_def None sk)
  from extendEnd_bounds [of "drop (nat (e + 1)) ?toks" "e + 1" e] assms show ?thesis
    unfolding r by auto
qed

lemma thirdPartyLoop_none:
  "thirdPartyLoop ts n (- 1) e0 = (s, e) \<Longrightarrow> s = - 1 \<Longrightarrow> 0 \<le> n \<Longrightarrow> e = e0"
proof (induction ts arbitrary: n)
  case Nil
  then show ?case by simp
next
  case (Cons t ts)
  show ?case
  proof (cases "Contains (ToLower (TrimSpace t)) ''copyright''")
    case True
    have "fst (thirdPartyLoop (t # ts) n (- 1) e0) = n"
      using True Cons.prems(3) thirdPartyLoop_started [of n ts "n + 1" n]
      by (simp add: Let_def)
    with Cons.prems show ?thesis by simp
  next
    case False
    with Cons.prems have "thirdPartyLoop ts (n + 1) (- 1) e0 = (s, e)"
      by (simp add: Let_def)
    from Cons.IH [OF this] Cons.prems show ?thesis by simp
  qed
qed

lemma findThirdPartyCopyrightBlock_bounds:
  assumes "findThirdPartyCopyrightBlock f = (s, e)" "scanLines (content f) \<noteq> []"
  shows "- 1 \<le> s \<and> s \<le> e \<and> e < int (length (scanLines (content f)))"
proof (cases "openErr f")
  case (Some m)
  with assms show ?thesis
    by (simp add: findThirdPartyCopyrightBlock_def)
next
  case None
  show ?thesis
  proof (cases "s = - 1")
    case False
    let ?toks = "scanLines (content f)"
    let ?acc = "takeWhile licenseLine (drop (nat s + 1) ?toks)"
    from findThirdPartyCopyrightBlock_span [OF None assms(1) False]
    have s: "0 \<le> s" "nat s < length ?toks" and e: "e = s \<or> e = s + int (length ?acc)"
      by (auto split: if_splits)
    have "length ?acc \<le> length ?toks - (nat s + 1)"
      by (metis length_drop length_takeWhile_le)
    with s e show ?thesis by auto
  next
    case True
    obtain t ts where toks: "scanLines (content f) = t # ts"
      using assms(2) by (cases "scanLines (content f)") auto
    obtain s' e' where l: "thirdPartyLoop ts 1 (- 1) (- 1) = (s', e')"
      by (cases "thirdPartyLoop ts 1 (- 1) (- 1)") auto
    have nf: "HasPrefix (TrimSpace t) ''#!'' \<or> \<not> Contains (ToLower (TrimSpace t)) ''copyright''"
    proof (rule ccontr)
      assume "\<not> ?thesis"
      then have "fst (findThirdPartyCopyrightBlock f) = 0"
        using thirdPartyLoop_started [of 0 ts 1 "- 1"]
        by (simp add: findThirdPartyCopyrightBlock_def None toks)
      with assms(1) True show False by simp
    qed
    with assms(1) True l have "s' = - 1"
      by (auto simp: findThirdPartyCopyrightBlock_def None toks split: if_splits)
    with thirdPartyLoop_none [OF l] have "e' = - 1" by simp
    with nf assms(1) l \<open>s' = - 1\<close> have "s = - 1" "e = - 1"
      by (auto simp: findThirdPartyCopyrightBlock_def None toks split: if_splits)
    then show ?thesis
      using assms(2) by simp
  qed
qed

lemma finishSpan_flags:
  "HasHeader (finishSpan f info) = HasHeader info \<and>
   HasThirdPartyCopyright (finishSpan f info) = HasThirdPartyCopyright info \<and>
   HasShebang (finishSpan f info) = HasShebang info \<and>
   (HasHeader info \<longrightarrow> StartLine (finishSpan f info) = StartLine info)"
  by (simp add: finishSpan_def split: prod.splits)

lemma list_ex_take_20:
  "list_ex P (take 20 toks) \<longleftrightarrow>
     (toks \<noteq> [] \<and> P (hd toks)) \<or> list_ex P (take 2 (drop 1 toks)) \<or>
     list_ex P (take (nat (maxLinesToCheck - int (min 3 (length toks)))) (drop 3 toks))"
proof -
  have "take 20 toks = take (1 + (2 + 17)) toks" by simp
  also have "\<dots> = take 1 toks @ take 2 (drop 1 toks) @ take 17 (drop 3 toks)"
    by (simp only: take_add drop_drop) simp
  finally have t: "take 20 toks = take 1 toks @ take 2 (drop 1 toks) @ take 17 (drop 3 toks)" .
  have h: "list_ex P (take 1 toks) \<longleftrightarrow> toks \<noteq> [] \<and> P (hd toks)"
    by (cases toks) simp_all
  have "take (nat (maxLinesToCheck - int (min 3 (length toks)))) (drop 3 toks) = take 17 (drop 3 toks)"
  proof (cases "3 \<le> length toks")
    case True
    then show ?thesis by (simp add: maxLinesToCheck_def min_def)
  next
    case False
    then show ?thesis by simp
  qed
  with t h show ?thesis by (simp add: list_ex_append)
qed

lemma scanned_HasHeader:
  "HasHeader (fst (scanned f)) \<longleftrightarrow> list_ex spdxTok (take 20 (scanLines (content f)))"
  unfolding list_ex_take_20 scanned_def Let_def spdxTok_def
  by (simp add: scanRest_flags checkThirdParty_flags scanNextTwo_flags scanFirst_info0)

lemma scanned_HasShebang:
  "HasShebang (fst (scanned f)) \<longleftrightarrow>
     scanLines (content f) \<noteq> [] \<and> HasPrefix (TrimSpace (hd (scanLines (content f)))) ''#!''"
  unfolding scanned_def Let_def
  by (simp add: scanRest_flags checkThirdParty_flags scanNextTwo_flags scanFirst_info0)

lemma list_ex_take_3:
  "list_ex P (take 3 toks) \<longleftrightarrow> (toks \<noteq> [] \<and> P (hd toks)) \<or> list_ex P (take 2 (drop 1 toks))"
proof -
  have t: "take 3 toks = take 1 toks @ take 2 (drop 1 toks)"
    using take_add [of 1 2 toks] by (simp add: numeral_3_eq_3)
  have h: "list_ex P (take 1 toks) \<longleftrightarrow> toks \<noteq> [] \<and> P (hd toks)"
    by (cases toks) simp_all
  with t show ?thesis by (simp add: list_ex_append)
qed

lemma scanned_HasThirdPartyCopyright:
  "HasThirdPartyCopyright (fst (scanned f)) \<longleftrightarrow>
     \<not> list_ex spdxTok (take 3 (scanLines (content f))) \<and>
     list_ex (\<lambda>line. Contains (ToLower line) ''copyright'')
       (map TrimSpace (take 3 (scanLines (content f))))"
  unfolding list_ex_take_3 [of spdxTok] scanned_def Let_def spdxTok_def
  by (simp add: scanRest_flags checkThirdParty_flags scanNextTwo_flags scanFirst_info0)

lemma scanned_span:
  "spanOK (int (length (scanLines (content f)))) (fst (scanned f))"
proof (cases "scanLines (content f)")
  case Nil
  then show ?thesis
    by (simp add: scanned_def scanFirst_def info0_def checkThirdParty_def spanOK_def)
next
  case (Cons t ts)
  let ?toks = "scanLines (content f)"
  let ?a = "scanFirst ?toks info0"
  let ?b = "scanNextTwo f (take 2 (drop 1 ?toks)) (int (min 1 (length ?toks))) ?a"
  let ?c = "checkThirdParty (map TrimSpace (take 3 ?toks)) ?b"
  have m1: "int (min 1 (length ?toks)) = 1" using Cons by simp
  have a: "spanOK 1 ?a"
    by (simp add: scanFirst_info0 spanOK_def)
  have "spanOK (1 + int (length (take 2 (drop 1 ?toks)))) ?b"
    unfolding m1 using a by (rule scanNextTwo_span) simp
  moreover have "1 + int (length (take 2 (drop 1 ?toks))) = int (min 3 (length ?toks))"
    using Cons by (simp add: min_def)
  ultimately have c: "spanOK (int (min 3 (length ?toks))) ?c"
    by (simp add: checkThirdParty_span)
  have "spanOK (int (min 3 (length ?toks)) + int (length (drop 3 ?toks)))
          (fst (scanRest f (drop 3 ?toks) (int (min 3 (length ?toks))) ?c))"
    using c by (rule scanRest_span) (simp add: Cons)
  moreover have "int (min 3 (length ?toks)) + int (length (drop 3 ?toks)) = int (length ?toks)"
    by (simp add: min_def)
  ultimately show ?thesis
    by (simp add: scanned_def Let_def)
qed

lemma scanned_not_ended:
  assumes "\<not> snd (scanned f)"
  shows "HasHeader (fst (scanned f)) \<or> 20 < length (scanLines (content f))"
proof -
  let ?toks = "scanLines (content f)"
  from assms scanRest_ended
  have "HasHeader (fst (scanned f)) \<or>
        maxLinesToCheck - int (min 3 (length ?toks)) < int (length (drop 3 ?toks))"
    unfolding scanned_def Let_def by blast
  then show ?thesis
    by (auto simp: maxLinesToCheck_def min_def split: if_splits)
qed

subsection \<open>Scanner tokens and the lines of the file\<close>

lemma rawLines_cases:
  "rawLines c = Split c nl \<or> (Split c nl = rawLines c @ [[]])"
proof (cases "last (Split c nl) = []")
  case True
  then have "Split c nl = butlast (Split c nl) @ [[]]"
    by (metis Split_nonempty append_butlast_last_id)
  with True show ?thesis by (simp add: rawLines_def)
next
  case False
  then show ?thesis by (simp add: rawLines_def)
qed

lemma length_rawLines: "length (rawLines c) \<le> length (Split c nl)"
  using rawLines_cases [of c] by (metis length_append_singleton le_SucI order_refl)

lemma length_scanLines: "length (scanLines c) \<le> length (Split c nl)"
proof -
  have "length (scanLines c) \<le> length (rawLines c)"
    by (simp add: scanLines_def length_takeWhile_le)
  with length_rawLines [of c] show ?thesis by simp
qed

lemma list_ex_take_rawLines:
  assumes "\<not> P []"
  shows "list_ex P (take n (rawLines c)) \<longleftrightarrow> list_ex P (take n (Split c nl))"
proof -
  from rawLines_cases [of c] show ?thesis
  proof
    assume "rawLines c = Split c nl"
    then show ?thesis by simp
  next
    assume s: "Split c nl = rawLines c @ [[]]"
    have "set (take n (rawLines c @ [[]])) \<subseteq> set (take n (rawLines c)) \<union> {[]}"
      by (auto simp: take_append dest: in_set_takeD)
    moreover have "set (take n (rawLines c)) \<subseteq> set (take n (rawLines c @ [[]]))"
      by (simp add: take_append)
    ultimately show ?thesis
      using assms unfolding s list_ex_iff by blast
  qed
qed

lemma list_ex_take_takeWhile:
  "list_ex P (take n (takeWhile Q xs)) \<Longrightarrow> list_ex P (take n xs)"
proof -
  have "take n (takeWhile Q xs) = take (min n (length (takeWhile Q xs))) xs"
    by (subst takeWhile_eq_take) (simp add: min.commute)
  moreover have "set (take (min n (length (takeWhile Q xs))) xs) \<subseteq> set (take n xs)"
    by (rule set_take_subset_set_take) simp
  ultimately show "list_ex P (take n (takeWhile Q xs)) \<Longrightarrow> list_ex P (take n xs)"
    unfolding list_ex_iff by auto
qed

lemma take_takeWhile_long:
  assumes "n \<le> length (takeWhile Q xs)"
  shows "take n (takeWhile Q xs) = take n xs"
proof -
  have "take n xs = take n (takeWhile Q xs @ dropWhile Q xs)" by simp
  also have "\<dots> = take n (takeWhile Q xs)"
    using assms by (simp only: take_append) simp
  finally show ?thesis by simp
qed

lemma list_ex_take_nth:
  "list_ex P (take n xs) \<longleftrightarrow> (\<exists>i<n. i < length xs \<and> P (xs ! i))"
proof
  assume "list_ex P (take n xs)"
  then obtain i where "i < length (take n xs)" "P (take n xs ! i)"
    unfolding list_ex_iff by (metis in_set_conv_nth)
  then show "\<exists>i<n. i < length xs \<and> P (xs ! i)"
    by (intro exI [of _ i]) simp
next
  assume "\<exists>i<n. i < length xs \<and> P (xs ! i)"
  then obtain i where i: "i < n" "i < length xs" "P (xs ! i)" by blast
  then have "take n xs ! i \<in> set (take n xs)"
    by (intro nth_mem) simp
  with i show "list_ex P (take n xs)"
    unfolding list_ex_iff by auto
qed

lemma list_ex_spdxTok_scanLines:
  "list_ex spdxTok (take n (scanLines c)) \<longleftrightarrow>
   list_ex containsSPDXIdentifier (take n (takeWhile fits (rawLines c)))"
  by (simp add: scanLines_def take_map list_ex_iff spdxTok_def containsSPDX_TrimSpace
      containsSPDX_dropCR)

lemma list_ex_copyright_scanLines:
  "list_ex (\<lambda>line. Contains (ToLower line) ''copyright'') (map TrimSpace (take n (scanLines c))) \<longleftrightarrow>
   list_ex (\<lambda>line. Contains (ToLower line) ''copyright'') (take n (takeWhile fits (rawLines c)))"
  by (simp add: scanLines_def take_map list_ex_iff copyright_TrimSpace copyright_dropCR)

subsection \<open>What a verdict of the classifier satisfies\<close>

lemma Detect_Inr:
  assumes "DetectExistingHeader f = Inr info"
  shows "openErr f = None" "info = finishSpan f (fst (scanned f))"
    "\<not> (snd (scanned f) \<and> scanErr (content f))"
  using assms by (auto simp: Detect_scanned split: option.splits if_splits)

lemma Detect_not_Panic: "DetectExistingHeader f \<noteq> Inl Panic"
  by (simp add: Detect_scanned split: option.splits)

lemma Detect_HasHeader:
  assumes "DetectExistingHeader f = Inr info"
  shows "HasHeader info \<longleftrightarrow> list_ex spdxTok (take 20 (scanLines (content f)))"
  using Detect_Inr(2) [OF assms] by (simp add: finishSpan_flags scanned_HasHeader)

lemma Detect_HasShebang:
  assumes "DetectExistingHeader f = Inr info"
  shows "HasShebang info \<longleftrightarrow>
     scanLines (content f) \<noteq> [] \<and> HasPrefix (TrimSpace (hd (scanLines (content f)))) ''#!''"
  using Detect_Inr(2) [OF assms] by (simp add: finishSpan_flags scanned_HasShebang)

lemma Detect_HasThirdPartyCopyright:
  assumes "DetectExistingHeader f = Inr info"
  shows "HasThirdPartyCopyright info \<longleftrightarrow>
     \<not> list_ex spdxTok (take 3 (scanLines (content f))) \<and>
     list_ex (\<lambda>line. Contains (ToLower line) ''copyright'')
       (map TrimSpace (take 3 (scanLines (content f))))"
  using Detect_Inr(2) [OF assms] by (simp add: finishSpan_flags scanned_HasThirdPartyCopyright)

lemma Detect_no_error_reached:
  assumes "DetectExistingHeader f = Inr info" "\<not> HasHeader info"
  shows "take 20 (takeWhile fits (rawLines (content f))) = take 20 (rawLines (content f))"
proof (cases "snd (scanned f)")
  case True
  with Detect_Inr(3) [OF assms(1)] have "list_all fits (rawLines (content f))"
    by (simp add: scanErr_def)
  then have "takeWhile fits (rawLines (content f)) = rawLines (content f)"
    by (simp add: list_all_iff)
  then show ?thesis by (rule arg_cong)
next
  case False
  from scanned_not_ended [OF False] assms Detect_Inr(2) [OF assms(1)]
  have "20 < length (scanLines (content f))"
    by (simp add: finishSpan_flags)
  then have "20 \<le> length (takeWhile fits (rawLines (content f)))"
    by (simp add: scanLines_def)
  then show ?thesis by (rule take_takeWhile_long)
qed

lemma Detect_span:
  assumes "DetectExistingHeader f = Inr info"
  shows "- 1 \<le> EndLine info \<and> EndLine info < int (length (scanLines (content f))) \<and>
         (HasHeader info \<longrightarrow> 0 \<le> StartLine info \<and> StartLine info \<le> EndLine info + 1)"
proof -
  let ?toks = "scanLines (content f)"
  let ?pre = "fst (scanned f)"
  note info = Detect_Inr(2) [OF assms]
  have pre: "spanOK (int (length ?toks)) ?pre"
    by (rule scanned_span)
  show ?thesis
  proof (cases "HasHeader ?pre")
    case True
    from pre True have e: "- 1 \<le> EndLine ?pre" "EndLine ?pre < int (length ?toks)"
      and s: "0 \<le> StartLine ?pre" "StartLine ?pre \<le> EndLine ?pre + 1"
      by (simp_all add: spanOK_def)
    from findHeaderEnd_bounds [OF e]
    have "EndLine ?pre \<le> findHeaderEnd f (EndLine ?pre)"
      "findHeaderEnd f (EndLine ?pre) < int (length ?toks)"
      by simp_all
    with True e s show ?thesis
      unfolding info by (simp add: finishSpan_def)
  next
    case False
    with pre have e: "EndLine ?pre = - 1" "StartLine ?pre = - 1"
      by (simp_all add: spanOK_def)
    show ?thesis
    proof (cases "HasThirdPartyCopyright ?pre")
      case tp: True
      then have ne: "?toks \<noteq> []"
        unfolding scanned_HasThirdPartyCopyright by auto
      obtain s e' where b: "findThirdPartyCopyrightBlock f = (s, e')"
        by (cases "findThirdPartyCopyrightBlock f") auto
      from findThirdPartyCopyrightBlock_bounds [OF b ne] False tp b show ?thesis
        unfolding info by (simp add: finishSpan_def)
    next
      case tp: False
      with False e show ?thesis
        unfolding info by (simp add: finishSpan_def)
    qed
  qed
qed

lemma containsSPDX_Nil: "\<not> containsSPDXIdentifier []"
  by (simp add: containsSPDXIdentifier_def ToLower_def)

lemma Detect_HasHeader_lines:
  assumes "DetectExistingHeader f = Inr info"
  shows "HasHeader info \<longleftrightarrow> list_ex containsSPDXIdentifier (take 20 (Split (content f) nl))"
proof -
  let ?raw = "rawLines (content f)"
  have h: "HasHeader info \<longleftrightarrow> list_ex containsSPDXIdentifier (take 20 (takeWhile fits ?raw))"
    using Detect_HasHeader [OF assms] by (simp add: list_ex_spdxTok_scanLines)
  have "HasHeader info \<longleftrightarrow> list_ex containsSPDXIdentifier (take 20 ?raw)"
  proof (cases "HasHeader info")
    case True
    with h list_ex_take_takeWhile show ?thesis by blast
  next
    case False
    with h Detect_no_error_reached [OF assms False] show ?thesis by simp
  qed
  then show ?thesis
    by (simp add: list_ex_take_rawLines [of containsSPDXIdentifier, OF containsSPDX_Nil])
qed


lemma Detect_HasThirdPartyCopyright_lines:
  assumes "DetectExistingHeader f = Inr info" "\<not> HasHeader info"
  shows "HasThirdPartyCopyright info \<longleftrightarrow>
         list_ex (\<lambda>line. Contains (ToLower line) ''copyright'') (take 3 (Split (content f) nl))"
proof -
  let ?raw = "rawLines (content f)"
  let ?tw = "takeWhile fits ?raw"
  have "\<not> list_ex spdxTok (take 20 (scanLines (content f)))"
    using Detect_HasHeader [OF assms(1)] assms(2) by simp
  moreover have "set (take 3 (scanLines (content f))) \<subseteq> set (take 20 (scanLines (content f)))"
    by (rule set_take_subset_set_take) simp
  ultimately have "\<not> list_ex spdxTok (take 3 (scanLines (content f)))"
    unfolding list_ex_iff by blast
  then have "HasThirdPartyCopyright info \<longleftrightarrow>
      list_ex (\<lambda>line. Contains (ToLower line) ''copyright'') (take 3 ?tw)"
    using Detect_HasThirdPartyCopyright [OF assms(1)]
    by (simp add: list_ex_copyright_scanLines)
  moreover have "take 3 ?tw = take 3 ?raw"
  proof -
    have "take 3 (take 20 ?tw) = take 3 (take 20 ?raw)"
      using Detect_no_error_reached [OF assms] by simp
    then show ?thesis by simp
  qed
  moreover have "list_ex (\<lambda>line. Contains (ToLower line) ''copyright'') (take 3 ?raw) \<longleftrightarrow>
      list_ex (\<lambda>line. Contains (ToLower line) ''copyright'') (take 3 (Split (content f) nl))"
    by (rule list_ex_take_rawLines) (simp add: ToLower_def)
  ultimately show ?thesis
    by simp
qed

subsection \<open>The ownership validator\<close>

lemma slice_span:
  assumes "0 \<le> lo" "lo \<le> hi + 1" "hi < int (length xs)"
  shows "slice xs lo (hi + 1) = Inr (map (\<lambda>i. xs ! nat i) [lo..hi])"
proof -
  have "take (nat (hi + 1) - nat lo) (drop (nat lo) xs) = map (\<lambda>i. xs ! nat i) [lo..hi]"
  proof (rule nth_equalityI)
    show "length (take (nat (hi + 1) - nat lo) (drop (nat lo) xs)) =
          length (map (\<lambda>i. xs ! nat i) [lo..hi])"
      using assms by simp
  next
    fix k
    assume "k < length (take (nat (hi + 1) - nat lo) (drop (nat lo) xs))"
    then have k: "lo + int k \<le> hi"
      using assms by simp
    then have "[lo..hi] ! k = lo + int k"
      by (rule nth_upto)
    moreover have "nat (lo + int k) = nat lo + k"
      using assms(1) by simp
    moreover have "k < length [lo..hi]"
      using k assms by simp
    ultimately show "take (nat (hi + 1) - nat lo) (drop (nat lo) xs) ! k =
          map (\<lambda>i. xs ! nat i) [lo..hi] ! k"
      using k assms by simp
  qed
  with assms show ?thesis
    by (simp add: slice_def)
qed

lemma CanRemoveHeader_spanText:
  assumes "DetectExistingHeader f = Inr info" and "HasHeader info"
  shows "CanRemoveHeader f config =
         Inr (Contains (ToLower (spanText f info)) ''spdx-license-identifier'' \<and>
              (Contains (spanText f info) (FullName config) \<or>
               Contains (spanText f info) (Organization config)))"
proof -
  let ?lines = "Split (content f) nl"
  from Detect_span [OF assms(1)] assms(2) length_scanLines [of "content f"]
  have b: "0 \<le> StartLine info" "StartLine info \<le> EndLine info + 1"
    "EndLine info < int (length ?lines)"
    by auto
  have hl: "(if StartLine info < int (length ?lines) \<and> EndLine info < int (length ?lines)
             then slice ?lines (StartLine info) (EndLine info + 1) else Inr [])
            = Inr (map (\<lambda>i. ?lines ! nat i) [StartLine info..EndLine info])"
  proof (cases "StartLine info < int (length ?lines)")
    case True
    with b slice_span [of "StartLine info" "EndLine info" ?lines] show ?thesis by simp
  next
    case False
    with b have "EndLine info < StartLine info" by simp
    with False show ?thesis by simp
  qed
  show ?thesis
    unfolding CanRemoveHeader_def spanText_def
    by (simp add: assms Detect_Inr(1) [OF assms(1)] hl Let_def)
qed

subsection \<open>The file mutator\<close>

lemma firstLine_Inr: "firstLine xs = Inr x \<Longrightarrow> xs \<noteq> [] \<and> x = xs ! 0"
  by (cases xs) (simp_all add: firstLine_def)

lemma firstLine_Split: "firstLine (Split c sep) = Inr (Split c sep ! 0)"
  using Split_nonempty [of c sep] by (cases "Split c sep") (simp_all add: firstLine_def)

lemma sliceFrom_Inr: "sliceFrom xs lo = Inr ys \<Longrightarrow> ys = drop (nat lo) xs"
  by (simp add: sliceFrom_def split: if_splits)

lemma restAfter_Inr: "restAfter lines e = Inr rest \<Longrightarrow> rest = drop (nat (e + 1)) lines"
  by (auto simp: restAfter_def sliceFrom_def split: if_splits)

lemma restAfter_ok: "- 1 \<le> e \<Longrightarrow> restAfter lines e = Inr (drop (nat (e + 1)) lines)"
  by (auto simp: restAfter_def sliceFrom_def)

lemma newLines_Inr:
  assumes "newLines lines newHeader info = Inr newContent"
  shows "newContent =
           (if HasShebang info then [lines ! 0, []] else []) @ Split newHeader nl @ [[]] @
           (if HasHeader info \<or> HasThirdPartyCopyright info
            then drop (nat (EndLine info + 1)) lines
            else if HasShebang info then drop 1 lines else lines)"
  using assms
  by (auto simp: newLines_def sliceFrom_def
      split: if_splits sum.splits dest!: firstLine_Inr restAfter_Inr)

lemma newLines_pieces:
  assumes "newLines lines newHeader info = Inr newContent" "\<forall>l \<in> set lines. nl \<notin> set l"
    "lines \<noteq> []"
  shows "\<forall>l \<in> set newContent. nl \<notin> set l"
proof -
  have "lines ! 0 \<in> set lines" using assms(3) by simp
  moreover have "\<And>n. set (drop n lines) \<subseteq> set lines" by (rule set_drop_subset)
  ultimately show ?thesis
    using assms(2) Split_pieces [of _ newHeader nl]
    unfolding newLines_Inr [OF assms(1)] by (auto split: if_splits)
qed

lemma modifyFile_Inr:
  assumes "modifyFile f newHeader info = Inr f'"
  shows "Split (content f') nl =
           (if HasShebang info then [Split (content f) nl ! 0, []] else []) @
           Split newHeader nl @ [[]] @
           (if HasHeader info \<or> HasThirdPartyCopyright info
            then drop (nat (EndLine info + 1)) (Split (content f) nl)
            else if HasShebang info then drop 1 (Split (content f) nl) else Split (content f) nl)"
proof -
  let ?lines = "Split (content f) nl"
  from assms obtain newContent where
    n: "newLines ?lines newHeader info = Inr newContent" and
    c: "content f' = Join newContent [nl]"
    by (auto simp: modifyFile_def WriteFile_def split: option.splits sum.splits)
  have p: "\<forall>l \<in> set newContent. nl \<notin> set l"
    using n by (rule newLines_pieces) (auto simp: Split_nonempty dest: Split_pieces)
  have ne: "newContent \<noteq> []"
    unfolding newLines_Inr [OF n] by (simp add: Split_nonempty)
  have "Split (content f') nl = newContent"
    unfolding c using ne p by (rule Split_Join)
  then show ?thesis
    unfolding newLines_Inr [OF n] .
qed

lemma newLines_ok:
  assumes "- 1 \<le> EndLine info"
  shows "\<exists>newContent. newLines (Split c nl) newHeader info = Inr newContent"
  using assms
  by (simp add: newLines_def firstLine_Split restAfter_ok sliceFrom_def)

lemma modifyFile_not_Panic:
  assumes "- 1 \<le> EndLine info"
  shows "modifyFile f newHeader info \<noteq> Inl Panic"
  using newLines_ok [OF assms, of "content f" newHeader]
  by (auto simp: modifyFile_def WriteFile_def split: option.splits)

subsection \<open>Header removal\<close>

lemma skipBlank_Inr: "0 \<le> i \<Longrightarrow> \<exists>j. skipBlank lines i = Inr j \<and> i \<le> j"
proof (induction lines i rule: skipBlank.induct)
  case (1 lines skipIndex)
  note eq = skipBlank.simps [of lines skipIndex]
  show ?case
  proof (cases "skipIndex < int (length lines) \<and> TrimSpace (lines ! nat skipIndex) = []")
    case True
    with 1 obtain j where "skipBlank lines (skipIndex + 1) = Inr j" "skipIndex + 1 \<le> j"
      by auto
    with True 1(2) show ?thesis
      by (intro exI [of _ j]) (simp add: eq)
  next
    case False
    with 1(2) show ?thesis
      by (intro exI [of _ skipIndex]) (auto simp: eq)
  qed
qed

lemma remainingAfter_ok:
  assumes "- 1 \<le> e"
  shows "\<exists>rest. remainingAfter lines e = Inr rest \<and> set rest \<subseteq> set lines"
proof -
  from skipBlank_Inr [of "e + 1" lines] assms
  obtain j where j: "skipBlank lines (e + 1) = Inr j" "0 \<le> j"
    by auto
  show ?thesis
  proof (cases "j < int (length lines)")
    case True
    with j have "remainingAfter lines e = Inr (drop (nat j) lines)"
      by (simp add: remainingAfter_def sliceFrom_def)
    then show ?thesis by (auto dest: in_set_dropD)
  next
    case False
    with j show ?thesis by (simp add: remainingAfter_def)
  qed
qed

subsection \<open>The shebang line\<close>

lemma TrimSpace_keep2:
  assumes "\<not> isSpace a" "\<not> isSpace b"
  shows "TrimSpace (a # b # r) = a # b # rev (dropWhile isSpace (rev r))"
proof -
  have "dropWhile isSpace (rev r @ b # [a]) = dropWhile isSpace (rev r) @ b # [a]"
    using assms(2) by (rule dropWhile_append3)
  with assms(1) show ?thesis
    by (simp add: TrimSpace_def)
qed

lemma dropCR_keep2:
  assumes "b \<noteq> CHR 0x0D"
  shows "\<exists>r'. dropCR (a # b # r) = a # b # r'"
  using assms by (cases r) (auto simp: dropCR_def)

lemma HasPrefix_shebang_token:
  assumes "HasPrefix l ''#!''"
  shows "HasPrefix (TrimSpace (dropCR l)) ''#!''"
proof -
  from assms obtain r where l: "l = CHR ''#'' # CHR ''!'' # r"
    by (cases l; cases "tl l") auto
  from dropCR_keep2 [of "CHR ''!''" "CHR ''#''" r]
  obtain r' where "dropCR l = CHR ''#'' # CHR ''!'' # r'"
    unfolding l by auto
  then show ?thesis
    by (simp add: TrimSpace_keep2 isSpace_def)
qed

lemma Detect_first_token:
  assumes "DetectExistingHeader f = Inr info" "Split (content f) nl ! 0 \<noteq> []"
  shows "scanLines (content f) \<noteq> [] \<and>
         hd (scanLines (content f)) = dropCR (Split (content f) nl ! 0)"
proof -
  let ?lines = "Split (content f) nl"
  let ?raw = "rawLines (content f)"
  have raw: "?raw \<noteq> [] \<and> hd ?raw = ?lines ! 0"
  proof -
    from rawLines_cases [of "content f"] show ?thesis
    proof
      assume "?raw = ?lines"
      then show ?thesis
        using Split_nonempty [of "content f" nl] by (simp add: hd_conv_nth)
    next
      assume s: "?lines = ?raw @ [[]]"
      with assms(2) have "?raw \<noteq> []" by auto
      then show ?thesis
        by (simp add: s hd_conv_nth nth_append)
    qed
  qed
  have "fits (hd ?raw)"
  proof (rule ccontr)
    assume nf: "\<not> fits (hd ?raw)"
    with raw have tw: "takeWhile fits ?raw = []"
      by (cases ?raw) auto
    then have "scanLines (content f) = []"
      by (simp add: scanLines_def)
    then have "snd (scanned f)"
      by (simp add: scanned_def)
    moreover have "scanErr (content f)"
      using nf raw by (cases ?raw) (auto simp: scanErr_def)
    ultimately show False
      using Detect_Inr(3) [OF assms(1)] by simp
  qed
  with raw have "takeWhile fits ?raw \<noteq> [] \<and> hd (takeWhile fits ?raw) = ?lines ! 0"
    by (cases ?raw) auto
  then show ?thesis
    by (simp add: scanLines_def hd_map)
qed

lemma Detect_HasShebang_line0:
  assumes "DetectExistingHeader f = Inr info" "HasPrefix (Split (content f) nl ! 0) ''#!''"
  shows "HasShebang info"
proof -
  from assms(2) have "Split (content f) nl ! 0 \<noteq> []"
    by auto
  from Detect_first_token [OF assms(1) this] HasPrefix_shebang_token [OF assms(2)]
  show ?thesis
    by (simp add: Detect_HasShebang [OF assms(1)])
qed

lemma RemoveHeader_line0:
  assumes "RemoveHeader f = Inr f'" "HasPrefix (Split (content f) nl ! 0) ''#!''"
  shows "Split (content f') nl ! 0 = Split (content f) nl ! 0"
proof -
  let ?lines = "Split (content f) nl"
  from assms(1) obtain info where d: "DetectExistingHeader f = Inr info"
    by (auto simp: RemoveHeader_def split: sum.splits)
  show ?thesis
  proof (cases "HasHeader info")
    case False
    with assms(1) d show ?thesis by (simp add: RemoveHeader_def)
  next
    case True
    have sb: "HasShebang info"
      using d assms(2) by (rule Detect_HasShebang_line0)
    from Detect_span [OF d] remainingAfter_ok [of "EndLine info" ?lines]
    obtain rest where r: "remainingAfter ?lines (EndLine info) = Inr rest" "set rest \<subseteq> set ?lines"
      by auto
    from assms(1) d True sb r have c: "content f' = Join (?lines ! 0 # rest) [nl]"
      by (auto simp: RemoveHeader_def firstLine_Split WriteFile_def Detect_Inr(1) [OF d]
          split: option.splits)
    have "?lines ! 0 \<in> set ?lines"
      using Split_nonempty [of "content f" nl] by simp
    with r(2) have "\<forall>l \<in> set (?lines ! 0 # rest). nl \<notin> set l"
      by (auto dest: Split_pieces)
    then have "Split (Join (?lines ! 0 # rest) [nl]) nl = ?lines ! 0 # rest"
      by (intro Split_Join) simp_all
    then show ?thesis
      by (simp add: c)
  qed
qed

subsection \<open>The per-file driver\<close>

lemma CanRemoveHeader_not_Panic: "CanRemoveHeader f config \<noteq> Inl Panic"
proof (cases "DetectExistingHeader f")
  case (Inl e)
  with Detect_not_Panic [of f] show ?thesis
    by (simp add: CanRemoveHeader_def)
next
  case (Inr info)
  show ?thesis
  proof (cases "HasHeader info")
    case True
    with CanRemoveHeader_spanText [OF Inr True, of config] show ?thesis by simp
  next
    case False
    with Inr show ?thesis by (simp add: CanRemoveHeader_def)
  qed
qed

lemma RemoveHeader_not_Panic: "RemoveHeader f \<noteq> Inl Panic"
proof (cases "DetectExistingHeader f")
  case (Inl e)
  with Detect_not_Panic [of f] show ?thesis
    by (simp add: RemoveHeader_def)
next
  case (Inr info)
  from Detect_span [OF Inr] remainingAfter_ok [of "EndLine info" "Split (content f) nl"]
  obtain rest where r: "remainingAfter (Split (content f) nl) (EndLine info) = Inr rest"
    by auto
  show ?thesis
    by (simp add: RemoveHeader_def Inr Detect_Inr(1) [OF Inr] firstLine_Split r WriteFile_def Let_def
        split: option.splits)
qed

lemma processRemoveMode_result:
  "\<exists>r f'. processRemoveMode f config = Inr (r, f') \<and>
     ((Action r = ''SKIP'' \<and> \<not> Modified r) \<or> (Action r = ''REMOVE'' \<and> Modified r))"
proof (cases "ShouldProcessFile f")
  case False
  then show ?thesis by (simp add: processRemoveMode_def)
next
  case True
  show ?thesis
  proof (cases "CanRemoveHeader f config")
    case (Inl e)
    with CanRemoveHeader_not_Panic [of f config] have "e \<noteq> Panic" by auto
    with Inl True show ?thesis
      by (cases e) (simp_all add: processRemoveMode_def)
  next
    case (Inr canRemove)
    show ?thesis
    proof (cases canRemove)
      case False
      show ?thesis
      proof (cases "DetectExistingHeader f")
        case (Inl e)
        with Detect_not_Panic [of f] have "e \<noteq> Panic" by auto
        with Inl Inr False True show ?thesis
          by (cases e) (simp_all add: processRemoveMode_def)
      next
        case d: (Inr info)
        with Inr False True show ?thesis
          by (simp add: processRemoveMode_def)
      qed
    next
      case c: True
      show ?thesis
      proof (cases "RemoveHeader f")
        case (Inl e)
        with RemoveHeader_not_Panic [of f] have "e \<noteq> Panic" by auto
        with Inl Inr c True show ?thesis
          by (cases e) (simp_all add: processRemoveMode_def)
      next
        case r: (Inr f')
        with Inr c True show ?thesis
          by (simp add: processRemoveMode_def)
      qed
    qed
  qed
qed

lemma ProcessFile_add_result:
  "\<exists>r f'. ProcessFile f config forceReplace False verbose year = Inr (r, f') \<and>
     ((Action r = ''SKIP'' \<and> \<not> Modified r) \<or>
      ((Action r = ''ADD'' \<or> Action r = ''REPLACE'') \<and> Modified r))"
proof (cases "ShouldProcessFile f")
  case False
  then show ?thesis by (simp add: ProcessFile_def)
next
  case True
  obtain style ok where g: "GetCommentStyle f = (style, ok)"
    by (cases "GetCommentStyle f") auto
  show ?thesis
  proof (cases ok)
    case False
    with True g show ?thesis by (simp add: ProcessFile_def)
  next
    case ok: True
    show ?thesis
    proof (cases "DetectExistingHeader f")
      case (Inl e)
      with Detect_not_Panic [of f] have "e \<noteq> Panic" by auto
      with Inl True g ok show ?thesis
        by (cases e) (simp_all add: ProcessFile_def)
    next
      case (Inr info)
      show ?thesis
      proof (cases "(HasHeader info \<or> HasThirdPartyCopyright info) \<and> \<not> forceReplace")
        case skip: True
        with Inr True g ok show ?thesis
          by (auto simp: ProcessFile_def)
      next
        case go: False
        let ?m = "modifyFile f (FormatHeader (GenerateHeader config year) style) info"
        show ?thesis
        proof (cases ?m)
          case m: (Inl e)
          from Detect_span [OF Inr] have "- 1 \<le> EndLine info" by simp
          from modifyFile_not_Panic [OF this] m have "e \<noteq> Panic" by auto
          with m Inr True g ok go show ?thesis
            by (cases e) (auto simp: ProcessFile_def Let_def)
        next
          case m: (Inr f')
          with Inr True g ok go show ?thesis
            by (auto simp: ProcessFile_def Let_def)
        qed
      qed
    qed
  qed
qed

lemma countResult_invariant:
  assumes "FilesProcessed stats = FilesModified stats + FilesSkipped stats"
    and "Modified r \<or> Action r = ''SKIP''"
  shows "FilesProcessed (countResult stats r) =
         FilesModified (countResult stats r) + FilesSkipped (countResult stats r)"
  using assms by (auto simp: countResult_def Let_def)

section \<open>Evaluation on concrete files\<close>

lemmas string_eval =
  Split.simps TrimSpace_def isSpace_def ToLower_def toLowerChar_def char_of_def bit_Suc_0_iff
  Let_def dropCR_def

lemmas scanner_eval =
  scanLines_def rawLines_def fits_def MaxScanTokenSize_def scanErr_def

lemmas detect_eval =
  DetectExistingHeader_def scanFirst_def info0_def containsSPDXIdentifier_def checkThirdParty_def
  finishSpan_def findHeaderEnd_def headerEndLine_def isCommentLine_def commentPrefixes_def
  maxLinesToCheck_def findThirdPartyCopyrightBlock_def licenseLine_def findHeaderStart_def
  headerStartLine_def findHeaderStartLoop.simps

lemmas mutate_eval =
  modifyFile_def newLines_def firstLine_def restAfter_def sliceFrom_def slice_def WriteFile_def
  RemoveHeader_def remainingAfter_def skipBlank.simps CanRemoveHeader_def

lemmas process_eval =
  ProcessFile_def processRemoveMode_def ShouldProcessFile_def GetCommentStyle_def Ext_def
  excludedExtensions_def commentStyles_def noStyle_def isTextFile_def IsPrint_def IsSpace_def
  FormatHeader_def GenerateHeader_def generateStudentHeader_def generateFacultyStaffHeader_def
  GetLicenseType_def GetHeaderTemplate_def Itoa_def natToString.simps

section \<open>Claims about the classifier's flags and span\<close>

text \<open>
  Claim C1: no input makes \<open>DetectExistingHeader\<close> return both \<open>HasHeader\<close> and
  \<open>HasThirdPartyCopyright\<close>. The code does not keep this: the third-party test runs after
  the first three lines only, guarded by \<open>\<not> HasHeader\<close>, and the scan of lines 3 to 19
  that follows can still set \<open>HasHeader\<close> without clearing the other flag. The theorem
  evaluates the classifier on a file with a copyright notice on line 0 and the marker on
  line 3: both flags are set.
\<close>

theorem C1_both_flags_set:
  "DetectExistingHeader
     \<lparr>filename = ''a.go'',
      content = ''// Copyright 2020 Acme\<newline>//\<newline>//\<newline>// SPDX-License-Identifier: MIT\<newline>'',
      openErr = None, writeErr = None\<rparr>
   = Inr \<lparr>HasHeader = True, HasThirdPartyCopyright = True, StartLine = 0, EndLine = 3,
          HasShebang = False\<rparr>"
  by (simp add: string_eval scanner_eval detect_eval)

text \<open>
  Claim C4: whenever a flag is set, \<open>StartLine \<le> EndLine\<close>, and no verdict pairs a valid
  \<open>StartLine\<close> with \<open>EndLine = -1\<close>. The branch for the first line sets \<open>StartLine\<close>
  and leaves \<open>EndLine\<close> at \<open>-1\<close>, where the branches for the later lines set both;
  \<open>findHeaderEnd\<close> then starts from \<open>-1\<close> and stays there when line 0 is not one of its
  header lines. The theorem evaluates the classifier on such a file.
\<close>

theorem C4_start_without_end:
  "DetectExistingHeader
     \<lparr>filename = ''a.py'',
      content = ''SPDX-License-Identifier: MIT\<newline>code'',
      openErr = None, writeErr = None\<rparr>
   = Inr \<lparr>HasHeader = True, HasThirdPartyCopyright = False, StartLine = 0, EndLine = - 1,
          HasShebang = False\<rparr>"
  by (simp add: string_eval scanner_eval detect_eval)

text \<open>
  Claim C5: whenever \<open>DetectExistingHeader\<close> returns a verdict, \<open>HasHeader\<close> is set if and
  only if one of the first 20 lines of the file contains the marker
  \<^verbatim>\<open>SPDX-License-Identifier\<close>, compared without regard to case. The lines are the pieces
  of the file between line feeds; trimming and the carriage return that the scanner drops
  do not change whether a line contains the marker.
\<close>

theorem C5_header_iff_marker_in_first_20_lines:
  assumes "DetectExistingHeader f = Inr info"
  shows "HasHeader info \<longleftrightarrow>
         (\<exists>i<20. i < length (Split (content f) nl) \<and>
                 Contains (ToLower (Split (content f) nl ! i)) ''spdx-license-identifier'')"
  using Detect_HasHeader_lines [OF assms]
  by (simp add: list_ex_take_nth containsSPDXIdentifier_def)

theorem C5_header_iff_marker_witness:
  "DetectExistingHeader
     \<lparr>filename = ''a.py'', content = ''x = 1\<newline># spdx-license-identifier: MIT\<newline>'',
      openErr = None, writeErr = None\<rparr>
   = Inr \<lparr>HasHeader = True, HasThirdPartyCopyright = False, StartLine = 1, EndLine = 1,
          HasShebang = False\<rparr> \<and>
   (\<exists>i<20. i < length (Split ''x = 1\<newline># spdx-license-identifier: MIT\<newline>'' nl) \<and>
       Contains (ToLower (Split ''x = 1\<newline># spdx-license-identifier: MIT\<newline>'' nl ! i))
         ''spdx-license-identifier'')"
proof -
  let ?f = "\<lparr>filename = ''a.py'', content = ''x = 1\<newline># spdx-license-identifier: MIT\<newline>'',
      openErr = None, writeErr = None\<rparr>"
  have h: "DetectExistingHeader ?f
           = Inr \<lparr>HasHeader = True, HasThirdPartyCopyright = False, StartLine = 1, EndLine = 1,
                  HasShebang = False\<rparr>"
    by (simp add: string_eval scanner_eval detect_eval)
  from C5_header_iff_marker_in_first_20_lines [OF h] h show ?thesis
    by simp
qed

text \<open>
  Claim C6, as amended: for a file with no first-party header, \<open>HasThirdPartyCopyright\<close>
  is set if and only if one of the first three lines of the file (lines 0 to 2, the shebang
  line counted and examined like any other) contains \<^verbatim>\<open>copyright\<close>, compared without
  regard to case.
\<close>

theorem C6_third_party_iff_copyright_in_first_3_lines:
  assumes "DetectExistingHeader f = Inr info" and "\<not> HasHeader info"
  shows "HasThirdPartyCopyright info \<longleftrightarrow>
         (\<exists>i<3. i < length (Split (content f) nl) \<and>
                Contains (ToLower (Split (content f) nl ! i)) ''copyright'')"
  using Detect_HasThirdPartyCopyright_lines [OF assms]
  by (simp add: list_ex_take_nth)

theorem C6_third_party_iff_copyright_witness:
  "DetectExistingHeader
     \<lparr>filename = ''a.sh'', content = ''#!/bin/sh\<newline># (c) Copyright 2020 Acme\<newline>echo'',
      openErr = None, writeErr = None\<rparr>
   = Inr \<lparr>HasHeader = False, HasThirdPartyCopyright = True, StartLine = 1, EndLine = 1,
          HasShebang = True\<rparr> \<and>
   (\<exists>i<3. i < length (Split ''#!/bin/sh\<newline># (c) Copyright 2020 Acme\<newline>echo'' nl) \<and>
       Contains (ToLower (Split ''#!/bin/sh\<newline># (c) Copyright 2020 Acme\<newline>echo'' nl ! i))
         ''copyright'')"
proof -
  let ?f = "\<lparr>filename = ''a.sh'', content = ''#!/bin/sh\<newline># (c) Copyright 2020 Acme\<newline>echo'',
      openErr = None, writeErr = None\<rparr>"
  have h: "DetectExistingHeader ?f
           = Inr \<lparr>HasHeader = False, HasThirdPartyCopyright = True, StartLine = 1, EndLine = 1,
                  HasShebang = True\<rparr>"
    by (simp add: string_eval scanner_eval detect_eval)
  from C6_third_party_iff_copyright_in_first_3_lines [OF h] h show ?thesis
    by simp
qed

text \<open>
  Claim C6 as stated fails: the window is not shifted past a shebang. In this file line 0
  is a shebang and line 3, the third line after it, contains the word, yet the flag is not
  set.
\<close>

theorem C6_shebang_lines_not_shifted:
  "DetectExistingHeader
     \<lparr>filename = ''a.sh'',
      content = ''#!/bin/sh\<newline>\<newline>\<newline># Copyright 2020 Acme\<newline>echo'',
      openErr = None, writeErr = None\<rparr>
   = Inr \<lparr>HasHeader = False, HasThirdPartyCopyright = False, StartLine = - 1, EndLine = - 1,
          HasShebang = True\<rparr> \<and>
   HasPrefix (Split ''#!/bin/sh\<newline>\<newline>\<newline># Copyright 2020 Acme\<newline>echo'' nl ! 0) ''#!'' \<and>
   Contains (ToLower (Split ''#!/bin/sh\<newline>\<newline>\<newline># Copyright 2020 Acme\<newline>echo'' nl ! 3))
     ''copyright''"
  by (simp add: string_eval scanner_eval detect_eval)

section \<open>Claims about the third-party block\<close>

text \<open>
  Claim C9, as amended: in \<open>findThirdPartyCopyrightBlock\<close> the forward scan stops at the
  first line that is not a license line, and the span ends at the last line the scan
  accepted: with \<open>s\<close> the copyright line, the end is \<open>s\<close> plus the number of
  consecutive license lines after it (so the last line of the file when every later line
  is a license line). The span is the single copyright line when no line after it is
  accepted, and also when the copyright line is found after line 0 and is itself not a
  license line, since the scan then stops on it.
\<close>

theorem C9_third_party_span:
  assumes "openErr f = None"
    and "findThirdPartyCopyrightBlock f = (s, e)"
    and "s \<noteq> -1"
  shows "0 \<le> s \<and> nat s < length (scanLines (content f)) \<and>
         Contains (ToLower (TrimSpace (scanLines (content f) ! nat s))) ''copyright'' \<and>
         e = (if s = 0 \<or> licenseLine (scanLines (content f) ! nat s)
              then s + int (length (takeWhile licenseLine (drop (nat s + 1) (scanLines (content f)))))
              else s)"
  using assms by (rule findThirdPartyCopyrightBlock_span)

theorem C9_third_party_span_witness:
  "findThirdPartyCopyrightBlock
     \<lparr>filename = ''a.go'',
      content = ''// Copyright 2020 Acme\<newline>// Permission is granted\<newline>package main'',
      openErr = None, writeErr = None\<rparr> = (0, 1) \<and>
   (1::int) = 0 + int (length (takeWhile licenseLine
       (drop (nat 0 + 1) (scanLines ''// Copyright 2020 Acme\<newline>// Permission is granted\<newline>package main''))))"
proof -
  let ?f = "\<lparr>filename = ''a.go'',
      content = ''// Copyright 2020 Acme\<newline>// Permission is granted\<newline>package main'',
      openErr = None, writeErr = None\<rparr>"
  have h: "findThirdPartyCopyrightBlock ?f = (0, 1)"
    by (simp add: string_eval scanner_eval detect_eval)
  from C9_third_party_span [of ?f 0 1, OF _ h] h show ?thesis
    by simp
qed

text \<open>
  Claim C9 as stated fails: in this file every line after the copyright line is a license
  line, no other line is ever found, and the returned span is lines 0 to 1, not the single
  copyright line.
\<close>

theorem C9_span_not_single_line:
  "list_all licenseLine (scanLines ''// Copyright 2020 Acme\<newline>// Permission is granted'') \<and>
   DetectExistingHeader
     \<lparr>filename = ''a.go'',
      content = ''// Copyright 2020 Acme\<newline>// Permission is granted'',
      openErr = None, writeErr = None\<rparr>
   = Inr \<lparr>HasHeader = False, HasThirdPartyCopyright = True, StartLine = 0, EndLine = 1,
          HasShebang = False\<rparr>"
  by (simp add: string_eval scanner_eval detect_eval)

section \<open>Claims about the ownership validator\<close>

text \<open>
  Claim C2: for a file classified with a first-party header, \<open>CanRemoveHeader\<close> returns
  false whenever the text of the span contains neither the configured full name nor the
  configured organization as an exact substring, whether or not the marker is in the span;
  and it returns true whenever the span contains the marker (compared without regard to
  case) and the full name or the organization verbatim.
\<close>

theorem C2_ownership_gate:
  assumes "DetectExistingHeader f = Inr info" and "HasHeader info"
  shows "(\<not> Contains (spanText f info) (FullName config) \<and>
          \<not> Contains (spanText f info) (Organization config)
          \<longrightarrow> CanRemoveHeader f config = Inr False) \<and>
         (Contains (ToLower (spanText f info)) ''spdx-license-identifier'' \<and>
          (Contains (spanText f info) (FullName config) \<or>
           Contains (spanText f info) (Organization config))
          \<longrightarrow> CanRemoveHeader f config = Inr True)"
  using CanRemoveHeader_spanText [OF assms] by simp

theorem C2_ownership_gate_witness:
  "DetectExistingHeader
     \<lparr>filename = ''a.py'',
      content = ''# Copyright 2025 Acme University\<newline># SPDX-License-Identifier: MIT\<newline>x = 1'',
      openErr = None, writeErr = None\<rparr>
   = Inr \<lparr>HasHeader = True, HasThirdPartyCopyright = False, StartLine = 0, EndLine = 1,
      HasShebang = False\<rparr> \<and>
   spanText
     \<lparr>filename = ''a.py'',
      content = ''# Copyright 2025 Acme University\<newline># SPDX-License-Identifier: MIT\<newline>x = 1'',
      openErr = None, writeErr = None\<rparr>
     \<lparr>HasHeader = True, HasThirdPartyCopyright = False, StartLine = 0, EndLine = 1,
      HasShebang = False\<rparr>
   = ''# Copyright 2025 Acme University\<newline># SPDX-License-Identifier: MIT'' \<and>
   CanRemoveHeader
     \<lparr>filename = ''a.py'',
      content = ''# Copyright 2025 Acme University\<newline># SPDX-License-Identifier: MIT\<newline>x = 1'',
      openErr = None, writeErr = None\<rparr>
     \<lparr>FullName = ''Bob Jones'', DefaultRole = ''Staff'', DeptOrLab = ''EECS'',
      Organization = ''Other University''\<rparr>
   = Inr False \<and>
   CanRemoveHeader
     \<lparr>filename = ''a.py'',
      content = ''# Copyright 2025 Acme University\<newline># SPDX-License-Identifier: MIT\<newline>x = 1'',
      openErr = None, writeErr = None\<rparr>
     \<lparr>FullName = ''Jane Smith'', DefaultRole = ''Staff'', DeptOrLab = ''EECS'',
      Organization = ''Acme University''\<rparr>
   = Inr True"
proof -
  let ?f = "\<lparr>filename = ''a.py'',
      content = ''# Copyright 2025 Acme University\<newline># SPDX-License-Identifier: MIT\<newline>x = 1'',
      openErr = None, writeErr = None\<rparr>"
  let ?i = "\<lparr>HasHeader = True, HasThirdPartyCopyright = False, StartLine = 0, EndLine = 1,
      HasShebang = False\<rparr>"
  have h: "DetectExistingHeader ?f = Inr ?i"
    by (simp add: string_eval scanner_eval detect_eval)
  have t: "spanText ?f ?i = ''# Copyright 2025 Acme University\<newline># SPDX-License-Identifier: MIT''"
    by (simp add: spanText_def Split.simps upto.simps)
  have l: "ToLower (spanText ?f ?i) = ''# copyright 2025 acme university\<newline># spdx-license-identifier: mit''"
    unfolding t by (simp add: string_eval)
  from C2_ownership_gate [OF h, of "\<lparr>FullName = ''Jane Smith'', DefaultRole = ''Staff'', DeptOrLab = ''EECS'',
      Organization = ''Acme University''\<rparr>"]
       C2_ownership_gate [OF h, of "\<lparr>FullName = ''Bob Jones'', DefaultRole = ''Staff'', DeptOrLab = ''EECS'',
      Organization = ''Other University''\<rparr>"]
       h t
  show ?thesis
    unfolding l by (simp add: t)
qed

section \<open>Claims about the file mutator\<close>

text \<open>
  Claim C3: when line 0 of the file starts with \<^verbatim>\<open>#!\<close>, line 0 of the output is line
  0 of the input, for \<open>modifyFile\<close> applied to the classifier's verdict (insert when the
  verdict has no flag, replace otherwise) and for \<open>RemoveHeader\<close>.
\<close>

theorem C3_shebang_preserved:
  assumes "HasPrefix (Split (content f) nl ! 0) ''#!''"
  shows "(DetectExistingHeader f = Inr info \<and> modifyFile f newHeader info = Inr f'
          \<longrightarrow> Split (content f') nl ! 0 = Split (content f) nl ! 0) \<and>
         (RemoveHeader f = Inr f'' \<longrightarrow> Split (content f'') nl ! 0 = Split (content f) nl ! 0)"
proof (intro conjI impI)
  assume a: "DetectExistingHeader f = Inr info \<and> modifyFile f newHeader info = Inr f'"
  then have "HasShebang info"
    using assms by (intro Detect_HasShebang_line0 [of f]) simp_all
  with a modifyFile_Inr [of f newHeader info f']
  show "Split (content f') nl ! 0 = Split (content f) nl ! 0"
    by simp
next
  assume "RemoveHeader f = Inr f''"
  then show "Split (content f'') nl ! 0 = Split (content f) nl ! 0"
    using assms by (rule RemoveHeader_line0)
qed

theorem C3_shebang_preserved_witness:
  "HasPrefix (Split ''#!/bin/sh\<newline># SPDX-License-Identifier: MIT\<newline>echo hi'' nl ! 0) ''#!'' \<and>
   DetectExistingHeader
     \<lparr>filename = ''a.sh'', content = ''#!/bin/sh\<newline># SPDX-License-Identifier: MIT\<newline>echo hi'',
      openErr = None, writeErr = None\<rparr>
   = Inr \<lparr>HasHeader = True, HasThirdPartyCopyright = False, StartLine = 1, EndLine = 1,
      HasShebang = True\<rparr> \<and>
   modifyFile
     \<lparr>filename = ''a.sh'', content = ''#!/bin/sh\<newline># SPDX-License-Identifier: MIT\<newline>echo hi'',
      openErr = None, writeErr = None\<rparr>
     ''# H''
     \<lparr>HasHeader = True, HasThirdPartyCopyright = False, StartLine = 1, EndLine = 1,
      HasShebang = True\<rparr>
   = Inr \<lparr>filename = ''a.sh'', content = ''#!/bin/sh\<newline>\<newline># H\<newline>\<newline>echo hi'',
      openErr = None, writeErr = None\<rparr> \<and>
   RemoveHeader
     \<lparr>filename = ''a.sh'', content = ''#!/bin/sh\<newline># SPDX-License-Identifier: MIT\<newline>echo hi'',
      openErr = None, writeErr = None\<rparr>
   = Inr \<lparr>filename = ''a.sh'', content = ''#!/bin/sh\<newline>echo hi'',
      openErr = None, writeErr = None\<rparr> \<and>
   Split ''#!/bin/sh\<newline>\<newline># H\<newline>\<newline>echo hi'' nl ! 0 = ''#!/bin/sh'' \<and>
   Split ''#!/bin/sh\<newline>echo hi'' nl ! 0 = ''#!/bin/sh''"
proof -
  let ?f = "\<lparr>filename = ''a.sh'', content = ''#!/bin/sh\<newline># SPDX-License-Identifier: MIT\<newline>echo hi'',
      openErr = None, writeErr = None\<rparr>"
  let ?i = "\<lparr>HasHeader = True, HasThirdPartyCopyright = False, StartLine = 1, EndLine = 1,
      HasShebang = True\<rparr>"
  have p: "HasPrefix (Split (content ?f) nl ! 0) ''#!''"
    by (simp add: Split.simps)
  have d: "DetectExistingHeader ?f = Inr ?i"
    by (simp add: string_eval scanner_eval detect_eval)
  have m: "modifyFile ?f ''# H'' ?i = Inr \<lparr>filename = ''a.sh'', content = ''#!/bin/sh\<newline>\<newline># H\<newline>\<newline>echo hi'',
      openErr = None, writeErr = None\<rparr>"
    by (simp add: string_eval mutate_eval)
  have r: "RemoveHeader ?f = Inr \<lparr>filename = ''a.sh'', content = ''#!/bin/sh\<newline>echo hi'',
      openErr = None, writeErr = None\<rparr>"
    by (simp add: d string_eval mutate_eval)
  from C3_shebang_preserved [OF p, of ?i "''# H''" "\<lparr>filename = ''a.sh'', content = ''#!/bin/sh\<newline>\<newline># H\<newline>\<newline>echo hi'',
      openErr = None, writeErr = None\<rparr>"
      "\<lparr>filename = ''a.sh'', content = ''#!/bin/sh\<newline>echo hi'',
      openErr = None, writeErr = None\<rparr>"] p d m r
  show ?thesis
    by (simp add: Split.simps)
qed

text \<open>
  Claim C7, as amended: for a file classified with a header or a third-party block,
  \<open>modifyFile\<close> succeeds when the file can be written, and the output ends with the new
  header, one blank line and every input line after \<open>EndLine\<close>, verbatim and in order;
  when the file has a shebang the output begins with the shebang line and one blank line.
  Nothing is stated about the input lines before \<open>StartLine\<close>.
\<close>

theorem C7_replace_keeps_lines_after_span:
  assumes "DetectExistingHeader f = Inr info"
    and "HasHeader info \<or> HasThirdPartyCopyright info"
    and "writeErr f = None"
  shows "\<exists>f'. modifyFile f newHeader info = Inr f' \<and>
           suffix (Split newHeader nl @ [''''] @
                   drop (nat (EndLine info + 1)) (Split (content f) nl))
             (Split (content f') nl) \<and>
           (HasShebang info \<longrightarrow>
              prefix [Split (content f) nl ! 0, ''''] (Split (content f') nl))"
proof -
  have "- 1 \<le> EndLine info"
    using Detect_span [OF assms(1)] by simp
  then obtain newContent where "newLines (Split (content f) nl) newHeader info = Inr newContent"
    using newLines_ok by blast
  then obtain f' where m: "modifyFile f newHeader info = Inr f'"
    by (simp add: modifyFile_def WriteFile_def Detect_Inr(1) [OF assms(1)] assms(3))
  show ?thesis
  proof (intro exI [of _ f'] conjI)
    show "modifyFile f newHeader info = Inr f'"
      by (rule m)
    show "suffix (Split newHeader nl @ [[]] @
                  drop (nat (EndLine info + 1)) (Split (content f) nl))
            (Split (content f') nl)"
      unfolding modifyFile_Inr [OF m] using assms(2) by (auto simp: suffix_def)
    show "HasShebang info \<longrightarrow>
            prefix [Split (content f) nl ! 0, []] (Split (content f') nl)"
      unfolding modifyFile_Inr [OF m] by simp
  qed
qed

theorem C7_replace_keeps_lines_after_span_witness:
  "DetectExistingHeader
     \<lparr>filename = ''a.go'', content = ''// Copyright 2020 Acme\<newline>package main'',
      openErr = None, writeErr = None\<rparr>
   = Inr \<lparr>HasHeader = False, HasThirdPartyCopyright = True, StartLine = 0, EndLine = 0,
      HasShebang = False\<rparr> \<and>
   modifyFile
     \<lparr>filename = ''a.go'', content = ''// Copyright 2020 Acme\<newline>package main'',
      openErr = None, writeErr = None\<rparr>
     ''// H''
     \<lparr>HasHeader = False, HasThirdPartyCopyright = True, StartLine = 0, EndLine = 0,
      HasShebang = False\<rparr>
   = Inr \<lparr>filename = ''a.go'', content = ''// H\<newline>\<newline>package main'',
      openErr = None, writeErr = None\<rparr> \<and>
   suffix [''// H'', '''', ''package main'']
     (Split ''// H\<newline>\<newline>package main'' nl)"
proof -
  let ?f = "\<lparr>filename = ''a.go'', content = ''// Copyright 2020 Acme\<newline>package main'',
      openErr = None, writeErr = None\<rparr>"
  let ?i = "\<lparr>HasHeader = False, HasThirdPartyCopyright = True, StartLine = 0, EndLine = 0,
      HasShebang = False\<rparr>"
  have d: "DetectExistingHeader ?f = Inr ?i"
    by (simp add: string_eval scanner_eval detect_eval)
  have m: "modifyFile ?f ''// H'' ?i = Inr \<lparr>filename = ''a.go'', content = ''// H\<newline>\<newline>package main'',
      openErr = None, writeErr = None\<rparr>"
    by (simp add: string_eval mutate_eval)
  from C7_replace_keeps_lines_after_span [OF d, of "''// H''"] d m
  show ?thesis
    by (simp add: Split.simps)
qed

text \<open>
  Claim C7 as stated fails: the span of this file is line 2 alone, yet the output has a
  blank line between the shebang and the new header, and line 1 of the input, which lies
  outside the span, is gone.
\<close>

theorem C7_replace_not_exact:
  "DetectExistingHeader
     \<lparr>filename = ''a.sh'', content = ''#!/bin/sh\<newline>set -e\<newline># SPDX-License-Identifier: MIT\<newline>echo hi'',
      openErr = None, writeErr = None\<rparr>
   = Inr \<lparr>HasHeader = True, HasThirdPartyCopyright = False, StartLine = 2, EndLine = 2,
      HasShebang = True\<rparr> \<and>
   modifyFile
     \<lparr>filename = ''a.sh'', content = ''#!/bin/sh\<newline>set -e\<newline># SPDX-License-Identifier: MIT\<newline>echo hi'',
      openErr = None, writeErr = None\<rparr>
     ''# H''
     \<lparr>HasHeader = True, HasThirdPartyCopyright = False, StartLine = 2, EndLine = 2,
      HasShebang = True\<rparr>
   = Inr \<lparr>filename = ''a.sh'', content = ''#!/bin/sh\<newline>\<newline># H\<newline>\<newline>echo hi'',
      openErr = None, writeErr = None\<rparr>"
  by (simp add: string_eval scanner_eval detect_eval mutate_eval)

text \<open>
  Claim C8, as amended: for the input \<^verbatim>\<open>#!/bin/bash\necho hi\<close> the classifier finds
  a shebang and no header, and the insert mutation writes the unchanged shebang as line 0,
  one blank line as line 1, the formatted header from line 2 on, one blank line, and then
  \<^verbatim>\<open>echo hi\<close>. This holds for every file name and every header text.
\<close>

theorem C8_shebang_insert:
  "DetectExistingHeader
     \<lparr>filename = n, content = ''#!/bin/bash\<newline>echo hi'', openErr = None, writeErr = None\<rparr>
   = Inr \<lparr>HasHeader = False, HasThirdPartyCopyright = False, StartLine = - 1, EndLine = - 1,
          HasShebang = True\<rparr> \<and>
   (\<exists>out. modifyFile
      \<lparr>filename = n, content = ''#!/bin/bash\<newline>echo hi'', openErr = None, writeErr = None\<rparr>
      newHeader
      \<lparr>HasHeader = False, HasThirdPartyCopyright = False, StartLine = - 1, EndLine = - 1,
        HasShebang = True\<rparr>
    = Inr \<lparr>filename = n, content = out, openErr = None, writeErr = None\<rparr> \<and>
    Split out nl = [''#!/bin/bash'', ''''] @ Split newHeader nl @ ['''', ''echo hi''])"
proof -
  have "Split (Join ([''#!/bin/bash'', ''''] @ Split newHeader nl @ ['''', ''echo hi'']) [nl]) nl
        = [''#!/bin/bash'', ''''] @ Split newHeader nl @ ['''', ''echo hi'']"
    by (rule Split_Join_Split) simp_all
  then show ?thesis
    by (simp add: string_eval scanner_eval detect_eval mutate_eval)
qed

text \<open>
  Claim C8 as stated fails: the header does not start on line 1. In the output of
  \<open>ProcessFile\<close> for the script \<^verbatim>\<open>run.sh\<close> line 1 is blank and the header starts on
  line 2.
\<close>

theorem C8_header_not_on_line_1:
  "ProcessFile
     \<lparr>filename = ''run.sh'', content = ''#!/bin/bash\<newline>echo hi'', openErr = None, writeErr = None\<rparr>
     \<lparr>FullName = ''Jane Smith'', DefaultRole = ''Student'', DeptOrLab = ''EECS'',
      Organization = ''Oregon State University''\<rparr>
     False False False 2025
   = Inr (\<lparr>Action = ''ADD'', Reason = ''Added MIT header'', Modified = True\<rparr>,
          \<lparr>filename = ''run.sh'',
           content = ''#!/bin/bash\<newline>\<newline># Copyright (c) 2025 Jane Smith\<newline>#\<newline># SPDX-License-Identifier: MIT\<newline># See LICENSE file for full license text.\<newline>\<newline>echo hi'',
           openErr = None, writeErr = None\<rparr>)"
  by (simp add: string_eval scanner_eval detect_eval mutate_eval process_eval)

section \<open>Claims about the per-file driver\<close>

text \<open>
  Claim C10: for every file and every combination of the flags, \<open>ProcessFile\<close> returns a
  result (no slice or index of the mutators is out of range), and in that result
  \<open>Modified\<close> is set if and only if \<open>Action\<close> is \<^verbatim>\<open>ADD\<close>, \<^verbatim>\<open>REPLACE\<close> or
  \<^verbatim>\<open>REMOVE\<close>, and a result that is not \<open>Modified\<close> has the action \<^verbatim>\<open>SKIP\<close>. Hence
  counting the result keeps the counters in the relation processed = modified + skipped.
\<close>

theorem C10_result_consistent:
  "\<exists>r f'. ProcessFile f config forceReplace removeMode verbose year = Inr (r, f') \<and>
     (Modified r \<longleftrightarrow> Action r = ''ADD'' \<or> Action r = ''REPLACE'' \<or> Action r = ''REMOVE'') \<and>
     (\<not> Modified r \<longrightarrow> Action r = ''SKIP'') \<and>
     (\<forall>stats. FilesProcessed stats = FilesModified stats + FilesSkipped stats \<longrightarrow>
        FilesProcessed (countResult stats r) =
        FilesModified (countResult stats r) + FilesSkipped (countResult stats r))"
proof -
  have "\<exists>r f'. ProcessFile f config forceReplace removeMode verbose year = Inr (r, f') \<and>
     ((Action r = ''SKIP'' \<and> \<not> Modified r) \<or>
      ((Action r = ''ADD'' \<or> Action r = ''REPLACE'' \<or> Action r = ''REMOVE'') \<and> Modified r))"
  proof (cases removeMode)
    case True
    with processRemoveMode_result [of f config] show ?thesis
      by (auto simp: ProcessFile_def)
  next
    case False
    with ProcessFile_add_result [of f config forceReplace verbose year] show ?thesis
      by auto
  qed
  then obtain r f' where
    p: "ProcessFile f config forceReplace removeMode verbose year = Inr (r, f')" and
    a: "(Action r = ''SKIP'' \<and> \<not> Modified r) \<or>
        ((Action r = ''ADD'' \<or> Action r = ''REPLACE'' \<or> Action r = ''REMOVE'') \<and> Modified r)"
    by blast
  from a have m: "Modified r \<longleftrightarrow> Action r = ''ADD'' \<or> Action r = ''REPLACE'' \<or> Action r = ''REMOVE''"
    by auto
  from a have s: "\<not> Modified r \<longrightarrow> Action r = ''SKIP''"
    by auto
  from a have "Modified r \<or> Action r = ''SKIP''"
    by auto
  then have c: "\<forall>stats. FilesProcessed stats = FilesModified stats + FilesSkipped stats \<longrightarrow>
        FilesProcessed (countResult stats r) =
        FilesModified (countResult stats r) + FilesSkipped (countResult stats r)"
    using countResult_invariant by blast
  from p m s c show ?thesis
    by blast
qed

theorem C10_result_consistent_witness:
  "ProcessFile
     \<lparr>filename = ''a.py'', content = ''# SPDX-License-Identifier: MIT\<newline>x = 1'',
      openErr = None, writeErr = None\<rparr>
     \<lparr>FullName = ''Jane Smith'', DefaultRole = ''Student'', DeptOrLab = ''EECS'',
      Organization = ''Oregon State University''\<rparr>
     False False False 2025
   = Inr (\<lparr>Action = ''SKIP'', Reason = ''Header already exists'', Modified = False\<rparr>,
          \<lparr>filename = ''a.py'', content = ''# SPDX-License-Identifier: MIT\<newline>x = 1'',
      openErr = None, writeErr = None\<rparr>) \<and>
   \<not> Modified \<lparr>Action = ''SKIP'', Reason = ''Header already exists'', Modified = False\<rparr> \<and>
   Action \<lparr>Action = ''SKIP'', Reason = ''Header already exists'', Modified = False\<rparr> = ''SKIP'' \<and>
   FilesProcessed newStats = FilesModified newStats + FilesSkipped newStats \<and>
   FilesProcessed (countResult newStats \<lparr>Action = ''SKIP'', Reason = ''Header already exists'', Modified = False\<rparr>) =
   FilesModified (countResult newStats \<lparr>Action = ''SKIP'', Reason = ''Header already exists'', Modified = False\<rparr>) +
   FilesSkipped (countResult newStats \<lparr>Action = ''SKIP'', Reason = ''Header already exists'', Modified = False\<rparr>)"
proof -
  let ?f = "\<lparr>filename = ''a.py'', content = ''# SPDX-License-Identifier: MIT\<newline>x = 1'',
      openErr = None, writeErr = None\<rparr>"
  let ?c = "\<lparr>FullName = ''Jane Smith'', DefaultRole = ''Student'', DeptOrLab = ''EECS'',
      Organization = ''Oregon State University''\<rparr>"
  let ?r = "\<lparr>Action = ''SKIP'', Reason = ''Header already exists'', Modified = False\<rparr>"
  have e: "ProcessFile ?f ?c False False False 2025 = Inr (?r, ?f)"
    by (simp add: string_eval scanner_eval detect_eval process_eval)
  from C10_result_consistent [of ?f ?c False False False 2025]
  obtain r f' where
    p: "ProcessFile ?f ?c False False False 2025 = Inr (r, f')" and
    s: "\<not> Modified r \<longrightarrow> Action r = ''SKIP''" and
    c: "\<forall>stats. FilesProcessed stats = FilesModified stats + FilesSkipped stats \<longrightarrow>
          FilesProcessed (countResult stats r) =
          FilesModified (countResult stats r) + FilesSkipped (countResult stats r)"
    by blast
  from p e have r: "r = ?r" by simp
  have n: "FilesProcessed newStats = FilesModified newStats + FilesSkipped newStats"
    by (simp add: newStats_def)
  from c n have "FilesProcessed (countResult newStats r) =
      FilesModified (countResult newStats r) + FilesSkipped (countResult newStats r)"
    by blast
  with e s n show ?thesis
    unfolding r by simp
qed

end
